theory Spec2Isabelle
  imports Main "HOL-Library.Sublist" "HOL-Library.AList"
begin

section \<open>Python values\<close>

text \<open>
  The values that travel through the server are what \<^verbatim>\<open>json.loads\<close> produces: \<^verbatim>\<open>None\<close>,
  booleans, unbounded integers, floats, strings, lists and string-keyed dicts. A dict is an
  association list in insertion order; a float is opaque (its arithmetic belongs to the
  interpreter and is a parameter below).
\<close>

typedecl pyfloat

datatype pyval =
    VNone
  | VBool bool
  | VInt int
  | VFloat pyfloat
  | VStr string
  | VList "pyval list"
  | VDict "(string \<times> pyval) list"

text \<open>
  Exceptions that the interpreter itself raises while server code or a callable runs. The
  handlers of the server only ever read \<^verbatim>\<open>str(e)\<close>, so an exception in flight is carried
  as that text; for interpreter-raised exceptions the text is produced by \<open>exc_str\<close>.
\<close>

datatype pyerr =
    KeyError string               \<comment> \<open>\<^verbatim>\<open>d[k]\<close> with \<^verbatim>\<open>k\<close> missing\<close>
  | TypeError_call string pyval   \<comment> \<open>\<^verbatim>\<open>f(**args)\<close> whose arguments do not bind to the signature of \<^verbatim>\<open>f\<close>\<close>
  | TypeError_add pyval           \<comment> \<open>\<^verbatim>\<open>v + 1\<close> on an operand without integer addition\<close>
  | TypeError_setitem pyval       \<comment> \<open>\<^verbatim>\<open>v[key] = value\<close> on a non-dict with a string key\<close>
  | AttributeError pyval string   \<comment> \<open>\<^verbatim>\<open>v.attr\<close> on a value without that attribute\<close>

text \<open>
  What \<^verbatim>\<open>json.loads\<close> raises on a string, each with its \<^verbatim>\<open>str(e)\<close>. The handlers of the
  server name \<^verbatim>\<open>json.JSONDecodeError\<close> only; every other exception of the parser (the
  \<^verbatim>\<open>ValueError\<close> for an integer literal of more than 4300 digits, a \<^verbatim>\<open>RecursionError\<close> on
  deep nesting) passes them by.
\<close>

datatype loads_error =
    JSONDecodeError string
  | OtherException string

text \<open>
  What the server takes from the interpreter and its standard library. \<open>json_loads\<close> is
  \<^verbatim>\<open>json.loads\<close> on a string. \<open>json_dumps\<close> is \<^verbatim>\<open>json.dumps(v, default=str)\<close>: \<open>Inl\<close>
  carries the text of whatever exception it raises.
\<close>

record pylib =
  json_loads :: "string \<Rightarrow> loads_error + pyval"
  json_dumps :: "pyval \<Rightarrow> string + string"
  exc_str :: "pyerr \<Rightarrow> string"
  float_add_int :: "pyfloat \<Rightarrow> int \<Rightarrow> pyfloat"

text \<open>Decimal rendering of an integer, as an f-string renders it.\<close>

fun str_nat :: "nat \<Rightarrow> string" where
  "str_nat n =
     (if n < 10 then [''0123456789'' ! n]
      else str_nat (n div 10) @ [''0123456789'' ! (n mod 10)])"

declare str_nat.simps [simp del]

definition str_int :: "int \<Rightarrow> string" where
  "str_int i = (if i < 0 then CHR ''-'' # str_nat (nat (- i)) else str_nat (nat i))"

section \<open>Execution contexts\<close>

datatype log_level = DEBUG | INFO | WARNING | ERROR

type_synonym log_record = "log_level \<times> string"

record ExecutionContext =
  context_id :: string
  state :: pyval

text \<open>
  \<^verbatim>\<open>ExecutionContext.__init__\<close>: the state starts as the empty dict; a non-empty
  \<^verbatim>\<open>initial_state\<close> is parsed and whatever value the parser returns becomes the state; only
  a \<^verbatim>\<open>JSONDecodeError\<close> is caught, and logged as a warning; any other exception of the
  parser leaves the constructor (\<open>Inl\<close>, with its text). The second component of a
  constructed result is the list of log records emitted.
\<close>

definition ExecutionContext_init ::
  "pylib \<Rightarrow> string \<Rightarrow> string \<Rightarrow> string + ExecutionContext \<times> log_record list" where
  "ExecutionContext_init lib cid initial_state =
     (if initial_state \<noteq> [] then
        (case json_loads lib initial_state of
           Inr v \<Rightarrow> Inr (\<lparr>context_id = cid, state = v\<rparr>, [])
         | Inl (JSONDecodeError e) \<Rightarrow>
             Inr (\<lparr>context_id = cid, state = VDict []\<rparr>,
                  [(WARNING, ''Invalid initial state JSON for context '' @ cid)])
         | Inl (OtherException e) \<Rightarrow> Inl e)
      else Inr (\<lparr>context_id = cid, state = VDict []\<rparr>, []))"

definition get_state :: "pylib \<Rightarrow> ExecutionContext \<Rightarrow> string + string" where
  "get_state lib ctx = json_dumps lib (state ctx)"

text \<open>
  \<^verbatim>\<open>update_state\<close>: \<^verbatim>\<open>self.state[key] = value\<close>. On a dict the key keeps its position when
  present and is appended otherwise; on any other JSON value the assignment raises.
\<close>

definition update_state ::
  "pylib \<Rightarrow> ExecutionContext \<Rightarrow> string \<Rightarrow> pyval \<Rightarrow> string + ExecutionContext" where
  "update_state lib ctx key v =
     (case state ctx of
        VDict d \<Rightarrow> Inr (ctx\<lparr>state := VDict (AList.update key v d)\<rparr>)
      | other \<Rightarrow> Inl (exc_str lib (TypeError_setitem other)))"

section \<open>Callables\<close>

text \<open>
  A registered Python callable under the two call expressions of the dispatcher:
  \<open>call_with_context f ctx args\<close> is \<^verbatim>\<open>f(exec_context, **args)\<close> and returns the outcome
  together with the context object as the call left it (the object is mutated in place, also
  when the call raises); \<open>call_plain f args\<close> is \<^verbatim>\<open>f(**args)\<close>. \<open>args\<close> is the value the
  parser returned, so binding it to the signature is part of the call. \<open>Inl\<close> is the text
  of a raised \<^verbatim>\<open>Exception\<close>.
\<close>

record pyfunc =
  call_with_context :: "ExecutionContext \<Rightarrow> pyval \<Rightarrow> (string + pyval) \<times> ExecutionContext"
  call_plain :: "pyval \<Rightarrow> string + pyval"

subsection \<open>The example callable \<^verbatim>\<open>counter_increment\<close>\<close>

text \<open>\<^verbatim>\<open>current + 1\<close>: integer addition; a bool counts as 0 or 1; a float stays a float.\<close>

fun py_add_one :: "pylib \<Rightarrow> pyval \<Rightarrow> string + pyval" where
  "py_add_one lib (VInt i) = Inr (VInt (i + 1))"
| "py_add_one lib (VBool b) = Inr (VInt ((if b then 1 else 0) + 1))"
| "py_add_one lib (VFloat x) = Inr (VFloat (float_add_int lib x 1))"
| "py_add_one lib v = Inl (exc_str lib (TypeError_add v))"

text \<open>The body of \<^verbatim>\<open>counter_increment(context)\<close>, run on an execution context.\<close>

definition counter_increment ::
  "pylib \<Rightarrow> ExecutionContext \<Rightarrow> (string + pyval) \<times> ExecutionContext" where
  "counter_increment lib context =
     (case state context of
        VDict d \<Rightarrow>
          (let current = (case map_of d ''counter'' of Some v \<Rightarrow> v | None \<Rightarrow> VInt 0) in
           case py_add_one lib current of
             Inl e \<Rightarrow> (Inl e, context)
           | Inr new_value \<Rightarrow>
               (case update_state lib context ''counter'' new_value of
                  Inl e \<Rightarrow> (Inl e, context)
                | Inr context' \<Rightarrow> (Inr new_value, context')))
      | other \<Rightarrow> (Inl (exc_str lib (AttributeError other ''get'')), context))"

text \<open>The body of \<^verbatim>\<open>counter_get(context)\<close>: it reads the counter and leaves the context alone.\<close>

definition counter_get ::
  "pylib \<Rightarrow> ExecutionContext \<Rightarrow> (string + pyval) \<times> ExecutionContext" where
  "counter_get lib context =
     (case state context of
        VDict d \<Rightarrow> (Inr (case map_of d ''counter'' of Some v \<Rightarrow> v | None \<Rightarrow> VInt 0), context)
      | other \<Rightarrow> (Inl (exc_str lib (AttributeError other ''get'')), context))"

text \<open>
  The callable as the dispatcher calls it. The signature has the single parameter
  \<^verbatim>\<open>context\<close>: with the context passed positionally only the empty dict binds; without it,
  the only binding arguments are \<^verbatim>\<open>{"context": v}\<close>, and then \<^verbatim>\<open>v.state\<close> raises since
  \<^verbatim>\<open>v\<close> is a JSON value.
\<close>

definition counter_increment_fn :: "pylib \<Rightarrow> pyfunc" where
  "counter_increment_fn lib =
     \<lparr>call_with_context = (\<lambda>ctx args.
        if args = VDict [] then counter_increment lib ctx
        else (Inl (exc_str lib (TypeError_call ''counter_increment'' args)), ctx)),
      call_plain = (\<lambda>args.
        case args of
          VDict [(k, v)] \<Rightarrow>
            if k = ''context'' then Inl (exc_str lib (AttributeError v ''state''))
            else Inl (exc_str lib (TypeError_call ''counter_increment'' args))
        | _ \<Rightarrow> Inl (exc_str lib (TypeError_call ''counter_increment'' args)))\<rparr>"

section \<open>The service\<close>

record method_meta =
  description :: string
  is_stateful :: bool
  parameter_types :: "string list"
  return_type :: string

record MethodInfo = method_meta +
  name :: string

text \<open>
  The attributes of \<^verbatim>\<open>TranspileTestServiceImpl\<close>. \<open>method_metadata\<close> is iterated by
  \<^verbatim>\<open>ListMethods\<close>, so it keeps the dict's insertion order; the other two dicts are only
  looked up. \<open>log_records\<close> collects what the handlers emit through \<^verbatim>\<open>logging\<close>.
\<close>

record service =
  contexts :: "string \<rightharpoonup> ExecutionContext"
  methods :: "string \<rightharpoonup> pyfunc"
  method_metadata :: "(string \<times> method_meta) list"
  log_records :: "log_record list"

definition service_init :: service where
  "service_init =
     \<lparr>contexts = Map.empty, methods = Map.empty, method_metadata = [],
      log_records = [(INFO, ''Python gRPC server initialized'')]\<rparr>"

definition register_function ::
  "service \<Rightarrow> string \<Rightarrow> pyfunc \<Rightarrow> string \<Rightarrow> bool \<Rightarrow> string list option \<Rightarrow> string \<Rightarrow> service" where
  "register_function s nm func descr stateful ptypes rtype =
     s\<lparr>methods := (methods s)(nm \<mapsto> func),
       method_metadata :=
         AList.update nm
           \<lparr>description = descr, is_stateful = stateful,
            parameter_types = (case ptypes of None \<Rightarrow> [] | Some ts \<Rightarrow> ts),
            return_type = rtype\<rparr>
           (method_metadata s),
       log_records := log_records s @ [(INFO, ''Registered function: '' @ nm)]\<rparr>"

subsection \<open>Messages\<close>

record Response =
  success :: bool
  error :: string

record CreateContextResponse = Response +
  created_context_id :: string

record ExecutionMetadata =
  execution_time_us :: int
  memory_bytes :: int
  runtime :: string

record InvokeMethodResponse = Response +
  result :: string
  metadata :: "ExecutionMetadata option"

record InspectStateResponse = Response +
  inspected_state :: string

record InvokeMethodRequest =
  method_name :: string
  request_context_id :: string
  arguments :: string

subsection \<open>CreateContext\<close>

text \<open>
  The identifier drawn by \<^verbatim>\<open>uuid.uuid4()\<close> is an input of the step. The method has no
  handler: an exception that leaves the constructor leaves the method (\<open>Inl\<close>), before
  anything is stored or logged.
\<close>

definition CreateContext ::
  "pylib \<Rightarrow> string \<Rightarrow> service \<Rightarrow> string \<Rightarrow> (string + CreateContextResponse) \<times> service" where
  "CreateContext lib uuid s initial_state =
     (case ExecutionContext_init lib uuid initial_state of
        Inl e \<Rightarrow> (Inl e, s)
      | Inr (exec_context, logged) \<Rightarrow>
          (Inr \<lparr>success = True, error = [], created_context_id = uuid\<rparr>,
           s\<lparr>contexts := (contexts s)(uuid \<mapsto> exec_context),
             log_records := log_records s @ logged @ [(INFO, ''Created context: '' @ uuid)]\<rparr>))"

subsection \<open>InvokeMethod\<close>

definition failure :: "string \<Rightarrow> InvokeMethodResponse" where
  "failure e = \<lparr>success = False, error = e, result = [], metadata = None\<rparr>"

text \<open>\<^verbatim>\<open>json.loads(request.arguments) if request.arguments else {}\<close>\<close>

definition parse_arguments :: "pylib \<Rightarrow> string \<Rightarrow> loads_error + pyval" where
  "parse_arguments lib a = (if a \<noteq> [] then json_loads lib a else Inr (VDict []))"

text \<open>
  The call itself, with the choice of calling convention. The metadata entry is read only
  when a context was resolved; a missing entry is a \<^verbatim>\<open>KeyError\<close>. A stateful call leaves
  the (mutated) context object where it is stored.
\<close>

definition execute ::
  "pylib \<Rightarrow> service \<Rightarrow> InvokeMethodRequest \<Rightarrow> pyfunc \<Rightarrow> pyval \<Rightarrow> ExecutionContext option
     \<Rightarrow> (string + pyval) \<times> service" where
  "execute lib s req func args exec_context =
     (case exec_context of
        None \<Rightarrow> (call_plain func args, s)
      | Some ctx \<Rightarrow>
          (case map_of (method_metadata s) (method_name req) of
             None \<Rightarrow> (Inl (exc_str lib (KeyError (method_name req))), s)
           | Some md \<Rightarrow>
               if is_stateful md then
                 (let (r, ctx') = call_with_context func ctx args in
                  (r, s\<lparr>contexts := (contexts s)(request_context_id req \<mapsto> ctx')\<rparr>))
               else (call_plain func args, s)))"

text \<open>
  After the call: serialise the result and answer, or answer from the handler of
  \<^verbatim>\<open>except Exception\<close>. \<open>t\<close> is the measured \<^verbatim>\<open>execution_time_us\<close>.
\<close>

definition complete ::
  "pylib \<Rightarrow> int \<Rightarrow> InvokeMethodRequest \<Rightarrow> (string + pyval) \<times> service
     \<Rightarrow> InvokeMethodResponse \<times> service" where
  "complete lib t req out =
     (let (r, s') = out in
      case (case r of Inl e \<Rightarrow> Inl e | Inr res \<Rightarrow> json_dumps lib res) of
        Inr result_json \<Rightarrow>
          (\<lparr>success = True, error = [], result = result_json,
            metadata = Some \<lparr>execution_time_us = t, memory_bytes = 0, runtime = ''python''\<rparr>\<rparr>,
           s'\<lparr>log_records := log_records s' @
                [(DEBUG, ''Executed '' @ method_name req @ '' in '' @ str_int t @ ''us'')]\<rparr>)
      | Inl e \<Rightarrow>
          (failure e,
           s'\<lparr>log_records := log_records s' @
                [(ERROR, ''Error executing '' @ method_name req @ '': '' @ e)]\<rparr>))"

text \<open>Steps 3 to 7: session resolution, call, answer, for arguments already parsed.\<close>

definition dispatch ::
  "pylib \<Rightarrow> int \<Rightarrow> service \<Rightarrow> InvokeMethodRequest \<Rightarrow> pyfunc \<Rightarrow> pyval
     \<Rightarrow> InvokeMethodResponse \<times> service" where
  "dispatch lib t s req func args =
     (if request_context_id req \<noteq> [] \<and> contexts s (request_context_id req) = None then
        (failure (''Context not found: '' @ request_context_id req), s)
      else
        complete lib t req
          (execute lib s req func args
             (if request_context_id req \<noteq> [] then contexts s (request_context_id req)
              else None)))"

text \<open>
  The inner handler answers a \<^verbatim>\<open>JSONDecodeError\<close> of the parser; any other exception of
  the parser goes to the handler of \<^verbatim>\<open>except Exception\<close>, as a raising callable does.
\<close>

definition InvokeMethod ::
  "pylib \<Rightarrow> int \<Rightarrow> service \<Rightarrow> InvokeMethodRequest \<Rightarrow> InvokeMethodResponse \<times> service" where
  "InvokeMethod lib t s req =
     (case methods s (method_name req) of
        None \<Rightarrow> (failure (''Method not found: '' @ method_name req), s)
      | Some func \<Rightarrow>
          (case parse_arguments lib (arguments req) of
             Inl (JSONDecodeError e) \<Rightarrow> (failure (''Invalid JSON arguments: '' @ e), s)
           | Inl (OtherException e) \<Rightarrow> complete lib t req (Inl e, s)
           | Inr args \<Rightarrow> dispatch lib t s req func args))"

subsection \<open>InspectState, DestroyContext, ListMethods\<close>

text \<open>
  \<^verbatim>\<open>InspectState\<close> has no handler around \<^verbatim>\<open>get_state\<close>: \<open>Inl\<close> is an exception that
  leaves the method.
\<close>

definition InspectState ::
  "pylib \<Rightarrow> service \<Rightarrow> string \<Rightarrow> (string + InspectStateResponse) \<times> service" where
  "InspectState lib s cid =
     (case contexts s cid of
        None \<Rightarrow>
          (Inr \<lparr>success = False, error = ''Context not found: '' @ cid, inspected_state = []\<rparr>, s)
      | Some exec_context \<Rightarrow>
          (case get_state lib exec_context of
             Inl e \<Rightarrow> (Inl e, s)
           | Inr js \<Rightarrow> (Inr \<lparr>success = True, error = [], inspected_state = js\<rparr>, s)))"

definition DestroyContext :: "service \<Rightarrow> string \<Rightarrow> Response \<times> service" where
  "DestroyContext s cid =
     (if contexts s cid \<noteq> None then
        (\<lparr>success = True, error = []\<rparr>,
         s\<lparr>contexts := (contexts s)(cid := None),
           log_records := log_records s @ [(INFO, ''Destroyed context: '' @ cid)]\<rparr>)
      else (\<lparr>success = False, error = ''Context not found: '' @ cid\<rparr>, s))"

definition method_info :: "string \<Rightarrow> method_meta \<Rightarrow> MethodInfo" where
  "method_info nm md =
     \<lparr>description = description md, is_stateful = is_stateful md,
      parameter_types = parameter_types md, return_type = return_type md, name = nm\<rparr>"

text \<open>The loop of \<^verbatim>\<open>ListMethods\<close> over \<^verbatim>\<open>self.method_metadata.items()\<close>.\<close>

fun list_loop :: "string \<Rightarrow> (string \<times> method_meta) list \<Rightarrow> MethodInfo list \<Rightarrow> MethodInfo list" where
  "list_loop pfx [] acc = acc"
| "list_loop pfx ((nm, md) # rest) acc =
     (if pfx \<noteq> [] \<and> \<not> prefix pfx nm then list_loop pfx rest acc
      else list_loop pfx rest (acc @ [method_info nm md]))"

definition ListMethods :: "service \<Rightarrow> string \<Rightarrow> MethodInfo list \<times> service" where
  "ListMethods s pfx = (list_loop pfx (method_metadata s) [], s)"

section \<open>Sequences of calls\<close>

text \<open>
  The loop of \<^verbatim>\<open>load_module\<close> over the callables it discovered: one
  \<^verbatim>\<open>register_function\<close> call for each, in order. An entry holds the arguments of the call.
\<close>

type_synonym registration = "string \<times> pyfunc \<times> string \<times> bool \<times> string list option \<times> string"

fun register_functions :: "service \<Rightarrow> registration list \<Rightarrow> service" where
  "register_functions s [] = s"
| "register_functions s ((nm, func, descr, stateful, ptypes, rtype) # rest) =
     register_functions (register_function s nm func descr stateful ptypes rtype) rest"

text \<open>
  A client that sends the same \<^verbatim>\<open>InvokeMethod\<close> request once for each element of a list
  of measured execution times, one after the other, and collects the answers.
\<close>

fun invoke_times ::
  "pylib \<Rightarrow> service \<Rightarrow> InvokeMethodRequest \<Rightarrow> int list \<Rightarrow> InvokeMethodResponse list \<times> service" where
  "invoke_times lib s req [] = ([], s)"
| "invoke_times lib s req (t # ts) =
     (let (r, s') = InvokeMethod lib t s req;
          (rs, s'') = invoke_times lib s' req ts
      in (r # rs, s''))"

section \<open>Concrete inputs\<close>

text \<open>
  An instance of the library parameters for evaluating the service on concrete requests.
  \<open>sample_loads\<close> returns what \<^verbatim>\<open>json.loads\<close> of CPython 3.11 returns or raises on the
  six payloads listed: the empty object, an object with a counter, a two-element array,
  the truncated payload of a single opening brace (a \<^verbatim>\<open>JSONDecodeError\<close>), an integer
  literal of 4301 digits (a \<^verbatim>\<open>ValueError\<close>: the interpreter converts at most
  \<^verbatim>\<open>sys.get_int_max_str_digits()\<close> digits, 4300 by default), and an object whose counter is
  the largest integer of 4300 digits. \<open>sample_dumps\<close> returns what
  \<^verbatim>\<open>json.dumps(v, default=str)\<close> returns or raises on integers (the same limit applies),
  \<^verbatim>\<open>None\<close> and the empty dict. Other arguments are not used below.
\<close>

definition int_max_str_digits :: nat where
  "int_max_str_digits = 4300"

definition long_int_payload :: string where
  "long_int_payload = replicate (Suc int_max_str_digits) (CHR ''1'')"

definition seeded_limit_payload :: string where
  \<open>seeded_limit_payload = ''{"counter": '' @ replicate int_max_str_digits (CHR ''9'') @ ''}''\<close>

definition sample_loads :: "string \<Rightarrow> loads_error + pyval" where
  \<open>sample_loads x =
     (if x = ''{}'' then Inr (VDict [])
      else if x = ''{"counter": 5}'' then Inr (VDict [(''counter'', VInt 5)])
      else if x = ''[1, 2]'' then Inr (VList [VInt 1, VInt 2])
      else if x = ''{'' then
        Inl (JSONDecodeError
          ''Expecting property name enclosed in double quotes: line 1 column 2 (char 1)'')
      else if x = long_int_payload then
        Inl (OtherException
          ''Exceeds the limit (4300 digits) for integer string conversion: value has 4301 digits; use sys.set_int_max_str_digits() to increase the limit'')
      else if x = seeded_limit_payload then
        Inr (VDict [(''counter'', VInt (10 ^ int_max_str_digits - 1))])
      else Inl (JSONDecodeError ''Expecting value: line 1 column 1 (char 0)''))\<close>

fun sample_dumps :: "pyval \<Rightarrow> string + string" where
  "sample_dumps (VInt i) =
     (if 10 ^ int_max_str_digits \<le> \<bar>i\<bar> then
        Inl ''Exceeds the limit (4300 digits) for integer string conversion; use sys.set_int_max_str_digits() to increase the limit''
      else Inr (str_int i))"
| "sample_dumps VNone = Inr ''null''"
| "sample_dumps (VDict []) = Inr ''{}''"
| "sample_dumps v = Inl ''not rendered''"

fun sample_exc_str :: "pyerr \<Rightarrow> string" where
  "sample_exc_str (KeyError k) = ''KeyError''"
| "sample_exc_str (TypeError_call f a) = f @ ''() does not accept these arguments''"
| "sample_exc_str (TypeError_add v) = ''unsupported operand for +''"
| "sample_exc_str (TypeError_setitem v) = ''object does not support item assignment''"
| "sample_exc_str (AttributeError v a) = ''object has no attribute '' @ a"

definition sample_lib :: pylib where
  "sample_lib =
     \<lparr>json_loads = sample_loads, json_dumps = sample_dumps, exc_str = sample_exc_str,
      float_add_int = (\<lambda>x i. x)\<rparr>"

text \<open>
  Two callables for examples, both accepting any keyword arguments (and raising, as every
  call does, when the arguments are not a mapping): one returns 42 under both call
  expressions; one raises, as a division by zero does.
\<close>

definition answer_fn :: pyfunc where
  "answer_fn =
     \<lparr>call_with_context = (\<lambda>ctx args.
        case args of
          VDict d \<Rightarrow> (Inr (VInt 42), ctx)
        | _ \<Rightarrow> (Inl (sample_exc_str (TypeError_call ''answer'' args)), ctx)),
      call_plain = (\<lambda>args.
        case args of
          VDict d \<Rightarrow> Inr (VInt 42)
        | _ \<Rightarrow> Inl (sample_exc_str (TypeError_call ''answer'' args)))\<rparr>"

definition boom_fn :: pyfunc where
  "boom_fn =
     \<lparr>call_with_context = (\<lambda>ctx args.
        case args of
          VDict d \<Rightarrow> (Inl ''division by zero'', ctx)
        | _ \<Rightarrow> (Inl (sample_exc_str (TypeError_call ''boom'' args)), ctx)),
      call_plain = (\<lambda>args.
        case args of
          VDict d \<Rightarrow> Inl ''division by zero''
        | _ \<Rightarrow> Inl (sample_exc_str (TypeError_call ''boom'' args)))\<rparr>"

text \<open>
  A service as the module loader and two \<^verbatim>\<open>CreateContext\<close> calls leave it: three registered
  methods, a context created without initial state and one seeded with a counter.
\<close>

definition sample_registry :: service where
  "sample_registry =
     register_function
       (register_function
          (register_function service_init
             ''counter_increment'' (counter_increment_fn sample_lib)
             ''Increment a counter (stateful)'' True (Some []) ''int'')
          ''answer'' answer_fn ''The answer'' True (Some [''int'', ''int'']) ''int'')
       ''boom'' boom_fn ''Always raises'' False None ''Any''"

definition sample_service :: service where
  \<open>sample_service =
     snd (CreateContext sample_lib ''ctx-2''
            (snd (CreateContext sample_lib ''ctx-1'' sample_registry []))
            ''{"counter": 5}'')\<close>

text \<open>
  The same service after one more \<^verbatim>\<open>CreateContext\<close>, whose initial state holds the largest
  counter of 4300 digits.
\<close>

definition limit_service :: service where
  "limit_service = snd (CreateContext sample_lib ''ctx-9'' sample_service seeded_limit_payload)"

section \<open>Evaluating the concrete service\<close>

lemma neq_by_length: "length xs \<noteq> length ys \<Longrightarrow> xs \<noteq> ys"
  by auto

lemma sample_loads_long_int:
  "json_loads sample_lib long_int_payload =
     Inl (OtherException
       ''Exceeds the limit (4300 digits) for integer string conversion: value has 4301 digits; use sys.set_int_max_str_digits() to increase the limit'')"
proof -
  have "long_int_payload \<noteq> ''{}''" and \<open>long_int_payload \<noteq> ''{"counter": 5}''\<close>
    and "long_int_payload \<noteq> ''[1, 2]''" and "long_int_payload \<noteq> ''{''"
    by (rule neq_by_length, simp add: long_int_payload_def int_max_str_digits_def)+
  then show ?thesis
    by (simp add: sample_lib_def sample_loads_def)
qed

lemma sample_loads_seeded_limit:
  "json_loads sample_lib seeded_limit_payload =
     Inr (VDict [(''counter'', VInt (10 ^ int_max_str_digits - 1))])"
proof -
  have "seeded_limit_payload \<noteq> ''{}''" and \<open>seeded_limit_payload \<noteq> ''{"counter": 5}''\<close>
    and "seeded_limit_payload \<noteq> ''[1, 2]''" and "seeded_limit_payload \<noteq> ''{''"
    and "seeded_limit_payload \<noteq> long_int_payload"
    by (rule neq_by_length,
        simp add: seeded_limit_payload_def long_int_payload_def int_max_str_digits_def)+
  then show ?thesis
    by (simp add: sample_lib_def sample_loads_def)
qed

lemma long_int_payload_not_empty: "long_int_payload \<noteq> []"
  by (simp add: long_int_payload_def)

lemma seeded_limit_payload_not_empty: "seeded_limit_payload \<noteq> []"
  by (simp add: seeded_limit_payload_def)

lemma below_digit_limit:
  assumes "\<bar>i :: int\<bar> < 100"
  shows "\<not> 10 ^ int_max_str_digits \<le> \<bar>i\<bar>"
proof -
  have "(10::int) ^ 2 \<le> 10 ^ int_max_str_digits"
    by (rule power_increasing) (simp_all add: int_max_str_digits_def)
  then have "(100::int) \<le> 10 ^ int_max_str_digits" by simp
  with assms show ?thesis by linarith
qed

lemma sample_dumps_small:
  assumes "\<bar>i\<bar> < 100"
  shows "json_dumps sample_lib (VInt i) = Inr (str_int i)"
  using below_digit_limit [OF assms] by (simp add: sample_lib_def)

lemma sample_dumps_at_limit:
  "json_dumps sample_lib (VInt (10 ^ int_max_str_digits)) =
     Inl ''Exceeds the limit (4300 digits) for integer string conversion; use sys.set_int_max_str_digits() to increase the limit''"
  by (simp add: sample_lib_def)

lemma sample_dumps_42: "json_dumps sample_lib (VInt 42) = Inr ''42''"
  by (simp add: sample_dumps_small str_int_def str_nat.simps)

lemma sample_methods:
  "methods sample_service =
     [''counter_increment'' \<mapsto> counter_increment_fn sample_lib, ''answer'' \<mapsto> answer_fn,
      ''boom'' \<mapsto> boom_fn]"
  by (simp add: sample_service_def sample_registry_def CreateContext_def register_function_def
      service_init_def ExecutionContext_init_def sample_lib_def sample_loads_def)

lemma sample_metadata:
  "method_metadata sample_service =
     [(''counter_increment'',
       \<lparr>description = ''Increment a counter (stateful)'', is_stateful = True,
        parameter_types = [], return_type = ''int''\<rparr>),
      (''answer'',
       \<lparr>description = ''The answer'', is_stateful = True,
        parameter_types = [''int'', ''int''], return_type = ''int''\<rparr>),
      (''boom'',
       \<lparr>description = ''Always raises'', is_stateful = False, parameter_types = [],
        return_type = ''Any''\<rparr>)]"
  by (simp add: sample_service_def sample_registry_def CreateContext_def register_function_def
      service_init_def ExecutionContext_init_def sample_lib_def sample_loads_def)

lemma sample_contexts:
  "contexts sample_service =
     [''ctx-1'' \<mapsto> \<lparr>context_id = ''ctx-1'', state = VDict []\<rparr>,
      ''ctx-2'' \<mapsto> \<lparr>context_id = ''ctx-2'', state = VDict [(''counter'', VInt 5)]\<rparr>]"
  by (simp add: sample_service_def sample_registry_def CreateContext_def register_function_def
      service_init_def ExecutionContext_init_def sample_lib_def sample_loads_def)

lemma sample_answer_plain:
  "fst (InvokeMethod sample_lib t sample_service
         \<lparr>method_name = ''answer'', request_context_id = [], arguments = ''{}''\<rparr>) =
     \<lparr>success = True, error = [], result = ''42'',
      metadata = Some \<lparr>execution_time_us = t, memory_bytes = 0, runtime = ''python''\<rparr>\<rparr>"
proof -
  have p: "parse_arguments sample_lib ''{}'' = Inr (VDict [])"
    by (simp add: parse_arguments_def sample_lib_def sample_loads_def)
  show ?thesis
    by (simp add: InvokeMethod_def sample_methods p dispatch_def execute_def complete_def
        answer_fn_def sample_dumps_42)
qed

section \<open>Method resolution comes first\<close>

text \<open>
  C1. A request for a method name that is not registered is answered with
  \<^verbatim>\<open>success=False\<close>, the error \<^verbatim>\<open>Method not found: <name>\<close>, no result and no execution
  metadata, whatever its arguments payload and context id are, and whatever the parser
  would say about the payload; the service is left as it was.
\<close>

theorem unregistered_method_not_found:
  assumes "methods s (method_name req) = None"
  shows "InvokeMethod lib t s req =
           (\<lparr>success = False, error = ''Method not found: '' @ method_name req,
             result = [], metadata = None\<rparr>, s)"
  using assms by (simp add: InvokeMethod_def failure_def)

theorem unregistered_method_not_found_witness:
  \<open>methods sample_service ''nope'' = None \<and>
   InvokeMethod sample_lib 7 sample_service
       \<lparr>method_name = ''nope'', request_context_id = ''ctx-1'', arguments = ''{''\<rparr> =
     (\<lparr>success = False, error = ''Method not found: nope'', result = [], metadata = None\<rparr>,
      sample_service)\<close>
proof -
  have h: "methods sample_service ''nope'' = None"
    by (simp add: sample_methods)
  show ?thesis
    using h unregistered_method_not_found
      [of sample_service "\<lparr>method_name = ''nope'', request_context_id = ''ctx-1'',
        arguments = ''{''\<rparr>" sample_lib 7]
    by simp
qed

section \<open>Calling convention\<close>

lemma InvokeMethod_registered:
  assumes "methods s (method_name req) = Some f"
    and "parse_arguments lib (arguments req) = Inr a"
  shows "InvokeMethod lib t s req = dispatch lib t s req f a"
  using assms by (simp add: InvokeMethod_def)

lemma dispatch_no_context:
  assumes "request_context_id req = []"
  shows "dispatch lib t s req f a = complete lib t req (call_plain f a, s)"
  using assms by (simp add: dispatch_def execute_def)

lemma dispatch_stateful:
  assumes "request_context_id req \<noteq> []"
    and "contexts s (request_context_id req) = Some ctx"
    and "map_of (method_metadata s) (method_name req) = Some md"
    and "is_stateful md"
  shows "dispatch lib t s req f a =
           complete lib t req
             (fst (call_with_context f ctx a),
              s\<lparr>contexts := (contexts s)(request_context_id req \<mapsto>
                   snd (call_with_context f ctx a))\<rparr>)"
  using assms by (simp add: dispatch_def execute_def split: prod.splits)

lemma dispatch_stateless:
  assumes "request_context_id req \<noteq> []"
    and "contexts s (request_context_id req) = Some ctx"
    and "map_of (method_metadata s) (method_name req) = Some md"
    and "\<not> is_stateful md"
  shows "dispatch lib t s req f a = complete lib t req (call_plain f a, s)"
  using assms by (simp add: dispatch_def execute_def)

lemma complete_returned:
  assumes "json_dumps lib v = Inr js"
  shows "fst (complete lib t req (Inr v, s')) =
           \<lparr>success = True, error = [], result = js,
            metadata = Some \<lparr>execution_time_us = t, memory_bytes = 0, runtime = ''python''\<rparr>\<rparr>"
  using assms by (simp add: complete_def)

lemma complete_raised:
  "complete lib t req (Inl e, s') =
     (failure e,
      s'\<lparr>log_records := log_records s' @
           [(ERROR, ''Error executing '' @ method_name req @ '': '' @ e)]\<rparr>)"
  by (simp add: complete_def)

text \<open>
  C2. For a registered method whose arguments parse to \<open>a\<close>: when the request names an
  existing context and the metadata of the method says \<open>is_stateful\<close>, the answer is the one
  built from \<^verbatim>\<open>func(exec_context, **args)\<close>, and the context object as that call left it
  stays stored under its id; when the request names an existing context and the method is
  not stateful, or names no context at all, the answer is the one built from
  \<^verbatim>\<open>func(**args)\<close> and no context is touched. In particular a method without a context
  (stateful or not) whose plain call returns a serialisable value is answered with
  \<^verbatim>\<open>success=True\<close>: the dispatcher raises no error of its own.
\<close>

theorem calling_convention:
  assumes "methods s (method_name req) = Some f"
    and "parse_arguments lib (arguments req) = Inr a"
  shows
    "(request_context_id req \<noteq> [] \<and> contexts s (request_context_id req) = Some ctx \<and>
      map_of (method_metadata s) (method_name req) = Some md \<and> is_stateful md \<longrightarrow>
        InvokeMethod lib t s req =
          complete lib t req
            (fst (call_with_context f ctx a),
             s\<lparr>contexts := (contexts s)(request_context_id req \<mapsto>
                  snd (call_with_context f ctx a))\<rparr>)) \<and>
     (request_context_id req \<noteq> [] \<and> contexts s (request_context_id req) = Some ctx \<and>
      map_of (method_metadata s) (method_name req) = Some md \<and> \<not> is_stateful md \<longrightarrow>
        InvokeMethod lib t s req = complete lib t req (call_plain f a, s)) \<and>
     (request_context_id req = [] \<longrightarrow>
        InvokeMethod lib t s req = complete lib t req (call_plain f a, s)) \<and>
     (request_context_id req = [] \<and> call_plain f a = Inr v \<and> json_dumps lib v = Inr js \<longrightarrow>
        fst (InvokeMethod lib t s req) =
          \<lparr>success = True, error = [], result = js,
           metadata = Some \<lparr>execution_time_us = t, memory_bytes = 0, runtime = ''python''\<rparr>\<rparr>)"
proof -
  note reg = InvokeMethod_registered [OF assms]
  have stateful:
    "request_context_id req \<noteq> [] \<and> contexts s (request_context_id req) = Some ctx \<and>
      map_of (method_metadata s) (method_name req) = Some md \<and> is_stateful md \<longrightarrow>
        InvokeMethod lib t s req =
          complete lib t req
            (fst (call_with_context f ctx a),
             s\<lparr>contexts := (contexts s)(request_context_id req \<mapsto>
                  snd (call_with_context f ctx a))\<rparr>)"
    by (simp add: reg dispatch_stateful)
  have stateless:
    "request_context_id req \<noteq> [] \<and> contexts s (request_context_id req) = Some ctx \<and>
      map_of (method_metadata s) (method_name req) = Some md \<and> \<not> is_stateful md \<longrightarrow>
        InvokeMethod lib t s req = complete lib t req (call_plain f a, s)"
    by (simp add: reg dispatch_stateless)
  have plain:
    "request_context_id req = [] \<longrightarrow>
        InvokeMethod lib t s req = complete lib t req (call_plain f a, s)"
    by (simp add: reg dispatch_no_context)
  have ok:
    "request_context_id req = [] \<and> call_plain f a = Inr v \<and> json_dumps lib v = Inr js \<longrightarrow>
        fst (InvokeMethod lib t s req) =
          \<lparr>success = True, error = [], result = js,
           metadata = Some \<lparr>execution_time_us = t, memory_bytes = 0, runtime = ''python''\<rparr>\<rparr>"
    by (simp add: reg dispatch_no_context complete_returned)
  from stateful stateless plain ok show ?thesis by blast
qed

theorem calling_convention_witness:
  "fst (InvokeMethod sample_lib 7 sample_service
         \<lparr>method_name = ''counter_increment'', request_context_id = ''ctx-2'',
          arguments = []\<rparr>) =
     \<lparr>success = True, error = [], result = ''6'',
      metadata = Some \<lparr>execution_time_us = 7, memory_bytes = 0, runtime = ''python''\<rparr>\<rparr> \<and>
   contexts (snd (InvokeMethod sample_lib 7 sample_service
         \<lparr>method_name = ''counter_increment'', request_context_id = ''ctx-2'',
          arguments = []\<rparr>)) ''ctx-2'' =
     Some \<lparr>context_id = ''ctx-2'', state = VDict [(''counter'', VInt 6)]\<rparr> \<and>
   fst (InvokeMethod sample_lib 7 sample_service
         \<lparr>method_name = ''boom'', request_context_id = ''ctx-1'', arguments = []\<rparr>) =
     \<lparr>success = False, error = ''division by zero'', result = [], metadata = None\<rparr> \<and>
   fst (InvokeMethod sample_lib 7 sample_service
         \<lparr>method_name = ''answer'', request_context_id = [], arguments = ''{}''\<rparr>) =
     \<lparr>success = True, error = [], result = ''42'',
      metadata = Some \<lparr>execution_time_us = 7, memory_bytes = 0, runtime = ''python''\<rparr>\<rparr>"
proof -
  let ?r1 = "\<lparr>method_name = ''counter_increment'', request_context_id = ''ctx-2'',
              arguments = []\<rparr>"
  let ?r2 = "\<lparr>method_name = ''boom'', request_context_id = ''ctx-1'', arguments = []\<rparr>"
  let ?r3 = "\<lparr>method_name = ''answer'', request_context_id = [], arguments = ''{}''\<rparr>"
  let ?c1 = "\<lparr>context_id = ''ctx-1'', state = VDict []\<rparr>"
  let ?c2 = "\<lparr>context_id = ''ctx-2'', state = VDict [(''counter'', VInt 5)]\<rparr>"
  let ?md1 = "\<lparr>description = ''Increment a counter (stateful)'', is_stateful = True,
               parameter_types = [], return_type = ''int''\<rparr>"
  let ?md2 = "\<lparr>description = ''Always raises'', is_stateful = False, parameter_types = [],
               return_type = ''Any''\<rparr>"
  have m1: "methods sample_service (method_name ?r1) = Some (counter_increment_fn sample_lib)"
    by (simp add: sample_methods)
  have p1: "parse_arguments sample_lib (arguments ?r1) = Inr (VDict [])"
    by (simp add: parse_arguments_def)
  have h1: "request_context_id ?r1 \<noteq> [] \<and>
      contexts sample_service (request_context_id ?r1) = Some ?c2 \<and>
      map_of (method_metadata sample_service) (method_name ?r1) = Some ?md1 \<and>
      is_stateful ?md1"
    by (simp add: sample_contexts sample_metadata)
  from calling_convention [OF m1 p1, where ctx = ?c2 and md = ?md1 and t = 7] h1
  have e1: "InvokeMethod sample_lib 7 sample_service ?r1 =
      complete sample_lib 7 ?r1
        (fst (call_with_context (counter_increment_fn sample_lib) ?c2 (VDict [])),
         sample_service\<lparr>contexts := (contexts sample_service)(request_context_id ?r1 \<mapsto>
           snd (call_with_context (counter_increment_fn sample_lib) ?c2 (VDict [])))\<rparr>)"
    by blast
  have m2: "methods sample_service (method_name ?r2) = Some boom_fn"
    by (simp add: sample_methods)
  have p2: "parse_arguments sample_lib (arguments ?r2) = Inr (VDict [])"
    by (simp add: parse_arguments_def)
  have h2: "request_context_id ?r2 \<noteq> [] \<and>
      contexts sample_service (request_context_id ?r2) = Some ?c1 \<and>
      map_of (method_metadata sample_service) (method_name ?r2) = Some ?md2 \<and>
      \<not> is_stateful ?md2"
    by (simp add: sample_contexts sample_metadata)
  from calling_convention [OF m2 p2, where ctx = ?c1 and md = ?md2 and t = 7] h2
  have e2: "InvokeMethod sample_lib 7 sample_service ?r2 =
      complete sample_lib 7 ?r2 (call_plain boom_fn (VDict []), sample_service)"
    by blast
  have m3: "methods sample_service (method_name ?r3) = Some answer_fn"
    by (simp add: sample_methods)
  have p3: "parse_arguments sample_lib (arguments ?r3) = Inr (VDict [])"
    by (simp add: parse_arguments_def sample_lib_def sample_loads_def)
  have h3: "request_context_id ?r3 = [] \<and> call_plain answer_fn (VDict []) = Inr (VInt 42) \<and>
      json_dumps sample_lib (VInt 42) = Inr ''42''"
    by (simp add: answer_fn_def sample_dumps_42)
  from calling_convention [OF m3 p3, where v = "VInt 42" and js = "''42''" and t = 7] h3
  have e3: "fst (InvokeMethod sample_lib 7 sample_service ?r3) =
      \<lparr>success = True, error = [], result = ''42'',
       metadata = Some \<lparr>execution_time_us = 7, memory_bytes = 0, runtime = ''python''\<rparr>\<rparr>"
    by blast
  have c: "call_with_context (counter_increment_fn sample_lib) ?c2 (VDict []) =
      (Inr (VInt 6), \<lparr>context_id = ''ctx-2'', state = VDict [(''counter'', VInt 6)]\<rparr>)"
    by (simp add: counter_increment_fn_def counter_increment_def update_state_def)
  have d: "json_dumps sample_lib (VInt 6) = Inr ''6''"
    by (simp add: sample_dumps_small str_int_def str_nat.simps)
  have a1: "fst (InvokeMethod sample_lib 7 sample_service ?r1) =
      \<lparr>success = True, error = [], result = ''6'',
       metadata = Some \<lparr>execution_time_us = 7, memory_bytes = 0, runtime = ''python''\<rparr>\<rparr>"
    by (simp add: e1 c complete_def d)
  have a2: "contexts (snd (InvokeMethod sample_lib 7 sample_service ?r1)) ''ctx-2'' =
      Some \<lparr>context_id = ''ctx-2'', state = VDict [(''counter'', VInt 6)]\<rparr>"
    by (simp add: e1 c complete_def d)
  have a3: "fst (InvokeMethod sample_lib 7 sample_service ?r2) =
      \<lparr>success = False, error = ''division by zero'', result = [], metadata = None\<rparr>"
    by (simp add: e2 complete_def boom_fn_def failure_def)
  from a1 a2 a3 e3 show ?thesis by blast
qed

section \<open>Failures of the callable\<close>

lemma complete_methods: "methods (snd (complete lib t req out)) = methods (snd out)"
  by (cases out) (simp add: complete_def split: sum.splits)

lemma complete_method_metadata:
  "method_metadata (snd (complete lib t req out)) = method_metadata (snd out)"
  by (cases out) (simp add: complete_def split: sum.splits)

lemma complete_contexts: "contexts (snd (complete lib t req out)) = contexts (snd out)"
  by (cases out) (simp add: complete_def split: sum.splits)

lemma complete_response: "fst (complete lib t req (r, s1)) = fst (complete lib t req (r, s2))"
  by (simp add: complete_def split: sum.splits)

lemma execute_methods: "methods (snd (execute lib s req f a ec)) = methods s"
  by (simp add: execute_def split: option.splits prod.splits)

lemma execute_method_metadata:
  "method_metadata (snd (execute lib s req f a ec)) = method_metadata s"
  by (simp add: execute_def split: option.splits prod.splits)

lemma execute_other_contexts:
  assumes "cid \<noteq> request_context_id req"
  shows "contexts (snd (execute lib s req f a ec)) cid = contexts s cid"
  using assms by (simp add: execute_def split: option.splits prod.splits)

lemma execute_dom_contexts:
  assumes "ec \<noteq> None \<longrightarrow> request_context_id req \<in> dom (contexts s)"
  shows "dom (contexts (snd (execute lib s req f a ec))) = dom (contexts s)"
  using assms by (auto simp add: execute_def split: option.splits prod.splits)

lemma execute_outcome_cong:
  assumes "method_metadata s' = method_metadata s"
  shows "fst (execute lib s' req f a ec) = fst (execute lib s req f a ec)"
  using assms by (simp add: execute_def split: option.splits prod.splits)

lemma dispatch_methods: "methods (snd (dispatch lib t s req f a)) = methods s"
  by (simp add: dispatch_def complete_methods execute_methods)

lemma dispatch_method_metadata:
  "method_metadata (snd (dispatch lib t s req f a)) = method_metadata s"
  by (simp add: dispatch_def complete_method_metadata execute_method_metadata)

lemma dispatch_other_contexts:
  assumes "cid \<noteq> request_context_id req"
  shows "contexts (snd (dispatch lib t s req f a)) cid = contexts s cid"
  using assms by (simp add: dispatch_def complete_contexts execute_other_contexts)

lemma dispatch_dom_contexts: "dom (contexts (snd (dispatch lib t s req f a))) = dom (contexts s)"
proof (cases "request_context_id req \<noteq> [] \<and> contexts s (request_context_id req) = None")
  case True
  then show ?thesis by (simp add: dispatch_def)
next
  case False
  have "dom (contexts (snd (execute lib s req f a
          (if request_context_id req \<noteq> [] then contexts s (request_context_id req)
           else None)))) = dom (contexts s)"
    by (rule execute_dom_contexts) (auto split: if_splits)
  with False show ?thesis by (simp add: dispatch_def complete_contexts)
qed

lemma dispatch_response_cong:
  assumes "method_metadata s' = method_metadata s"
    and "request_context_id req = [] \<or>
         contexts s' (request_context_id req) = contexts s (request_context_id req)"
  shows "fst (dispatch lib t s' req f a) = fst (dispatch lib t s req f a)"
proof -
  obtain r1 s1 where x1: "execute lib s' req f a
      (if request_context_id req \<noteq> [] then contexts s (request_context_id req) else None) =
      (r1, s1)"
    by (cases "execute lib s' req f a
      (if request_context_id req \<noteq> [] then contexts s (request_context_id req) else None)")
  obtain r2 s2 where x2: "execute lib s req f a
      (if request_context_id req \<noteq> [] then contexts s (request_context_id req) else None) =
      (r2, s2)"
    by (cases "execute lib s req f a
      (if request_context_id req \<noteq> [] then contexts s (request_context_id req) else None)")
  from execute_outcome_cong [OF assms(1), of lib req f a
      "if request_context_id req \<noteq> [] then contexts s (request_context_id req) else None"]
    x1 x2
  have "r1 = r2" by simp
  with x1 x2 assms(2) show ?thesis
    by (auto simp add: dispatch_def intro: complete_response)
qed

lemma InvokeMethod_methods: "methods (snd (InvokeMethod lib t s req)) = methods s"
  by (simp add: InvokeMethod_def dispatch_methods complete_methods
      split: option.splits sum.splits loads_error.splits)

lemma InvokeMethod_method_metadata:
  "method_metadata (snd (InvokeMethod lib t s req)) = method_metadata s"
  by (simp add: InvokeMethod_def dispatch_method_metadata complete_method_metadata
      split: option.splits sum.splits loads_error.splits)

lemma InvokeMethod_other_contexts:
  assumes "cid \<noteq> request_context_id req"
  shows "contexts (snd (InvokeMethod lib t s req)) cid = contexts s cid"
  using assms
  by (simp add: InvokeMethod_def dispatch_other_contexts complete_contexts
      split: option.splits sum.splits loads_error.splits)

lemma InvokeMethod_dom_contexts:
  "dom (contexts (snd (InvokeMethod lib t s req))) = dom (contexts s)"
  by (simp add: InvokeMethod_def dispatch_dom_contexts complete_contexts
      split: option.splits sum.splits loads_error.splits)

lemma InvokeMethod_response_cong:
  assumes "methods s' = methods s"
    and "method_metadata s' = method_metadata s"
    and "request_context_id req = [] \<or>
         contexts s' (request_context_id req) = contexts s (request_context_id req)"
  shows "fst (InvokeMethod lib t s' req) = fst (InvokeMethod lib t s req)"
  using assms(1) dispatch_response_cong [OF assms(2,3)]
  by (auto simp add: InvokeMethod_def split: option.splits sum.splits loads_error.splits
      intro: complete_response)

text \<open>
  C3. When the call of a registered callable raises with message \<open>e\<close> (the plain call, when
  the request names no context or the method is not stateful; the call with the context
  otherwise), the answer is a well-formed response with \<^verbatim>\<open>success=False\<close>, \<open>e\<close> itself as
  error, no result and no execution metadata. The service goes on: the registry is
  unchanged, the same contexts exist, and every later request that names no context or
  another context is answered exactly as it would have been before the failure.
\<close>

theorem callable_failure_reported:
  assumes "methods s (method_name req) = Some f"
    and "parse_arguments lib (arguments req) = Inr a"
    and "(request_context_id req = [] \<and> call_plain f a = Inl e) \<or>
         (request_context_id req \<noteq> [] \<and> contexts s (request_context_id req) = Some ctx \<and>
          map_of (method_metadata s) (method_name req) = Some md \<and>
          (if is_stateful md then fst (call_with_context f ctx a) = Inl e
           else call_plain f a = Inl e))"
  shows
    "fst (InvokeMethod lib t s req) =
       \<lparr>success = False, error = e, result = [], metadata = None\<rparr> \<and>
     methods (snd (InvokeMethod lib t s req)) = methods s \<and>
     method_metadata (snd (InvokeMethod lib t s req)) = method_metadata s \<and>
     dom (contexts (snd (InvokeMethod lib t s req))) = dom (contexts s) \<and>
     (\<forall>req' t'.
        request_context_id req' = [] \<or> request_context_id req' \<noteq> request_context_id req \<longrightarrow>
          fst (InvokeMethod lib t' (snd (InvokeMethod lib t s req)) req') =
          fst (InvokeMethod lib t' s req'))"
proof -
  note reg = InvokeMethod_registered [OF assms(1,2)]
  have answer: "fst (InvokeMethod lib t s req) =
      \<lparr>success = False, error = e, result = [], metadata = None\<rparr>"
  proof (cases "request_context_id req = []")
    case True
    with assms(3) have "call_plain f a = Inl e" by auto
    with True show ?thesis
      by (simp add: reg dispatch_no_context complete_raised failure_def)
  next
    case False
    with assms(3) have c: "contexts s (request_context_id req) = Some ctx"
      and m: "map_of (method_metadata s) (method_name req) = Some md"
      and r: "if is_stateful md then fst (call_with_context f ctx a) = Inl e
              else call_plain f a = Inl e"
      by auto
    show ?thesis
    proof (cases "is_stateful md")
      case True
      with r have "fst (call_with_context f ctx a) = Inl e" by simp
      with False c m True show ?thesis
        by (simp add: reg dispatch_stateful complete_raised failure_def)
    next
      case stateless: False
      with r have "call_plain f a = Inl e" by simp
      with False c m stateless show ?thesis
        by (simp add: reg dispatch_stateless complete_raised failure_def)
    qed
  qed
  have later: "fst (InvokeMethod lib t' (snd (InvokeMethod lib t s req)) req') =
      fst (InvokeMethod lib t' s req')"
    if "request_context_id req' = [] \<or> request_context_id req' \<noteq> request_context_id req"
    for req' t'
    using that
    by (intro InvokeMethod_response_cong)
      (auto simp add: InvokeMethod_methods InvokeMethod_method_metadata
        InvokeMethod_other_contexts)
  from answer later show ?thesis
    by (simp add: InvokeMethod_methods InvokeMethod_method_metadata InvokeMethod_dom_contexts)
qed

theorem callable_failure_reported_witness:
  "fst (InvokeMethod sample_lib 7 sample_service
         \<lparr>method_name = ''boom'', request_context_id = ''ctx-1'', arguments = []\<rparr>) =
     \<lparr>success = False, error = ''division by zero'', result = [], metadata = None\<rparr> \<and>
   fst (InvokeMethod sample_lib 9
         (snd (InvokeMethod sample_lib 7 sample_service
           \<lparr>method_name = ''boom'', request_context_id = ''ctx-1'', arguments = []\<rparr>))
         \<lparr>method_name = ''answer'', request_context_id = [], arguments = ''{}''\<rparr>) =
     \<lparr>success = True, error = [], result = ''42'',
      metadata = Some \<lparr>execution_time_us = 9, memory_bytes = 0, runtime = ''python''\<rparr>\<rparr>"
proof -
  let ?r = "\<lparr>method_name = ''boom'', request_context_id = ''ctx-1'', arguments = []\<rparr>"
  let ?r' = "\<lparr>method_name = ''answer'', request_context_id = [], arguments = ''{}''\<rparr>"
  let ?c1 = "\<lparr>context_id = ''ctx-1'', state = VDict []\<rparr>"
  let ?md = "\<lparr>description = ''Always raises'', is_stateful = False, parameter_types = [],
              return_type = ''Any''\<rparr>"
  have m: "methods sample_service (method_name ?r) = Some boom_fn"
    by (simp add: sample_methods)
  have p: "parse_arguments sample_lib (arguments ?r) = Inr (VDict [])"
    by (simp add: parse_arguments_def)
  have h: "(request_context_id ?r = [] \<and> call_plain boom_fn (VDict []) = Inl ''division by zero'') \<or>
      (request_context_id ?r \<noteq> [] \<and> contexts sample_service (request_context_id ?r) = Some ?c1 \<and>
       map_of (method_metadata sample_service) (method_name ?r) = Some ?md \<and>
       (if is_stateful ?md
        then fst (call_with_context boom_fn ?c1 (VDict [])) = Inl ''division by zero''
        else call_plain boom_fn (VDict []) = Inl ''division by zero''))"
    by (simp add: sample_contexts sample_metadata boom_fn_def)
  note inst = callable_failure_reported [OF m p h, of 7]
  from inst have a: "fst (InvokeMethod sample_lib 7 sample_service ?r) =
      \<lparr>success = False, error = ''division by zero'', result = [], metadata = None\<rparr>"
    by blast
  from inst have "request_context_id ?r' = [] \<or> request_context_id ?r' \<noteq> request_context_id ?r \<longrightarrow>
      fst (InvokeMethod sample_lib 9 (snd (InvokeMethod sample_lib 7 sample_service ?r)) ?r') =
      fst (InvokeMethod sample_lib 9 sample_service ?r')"
    by blast
  then have b: "fst (InvokeMethod sample_lib 9 (snd (InvokeMethod sample_lib 7 sample_service ?r)) ?r') =
      fst (InvokeMethod sample_lib 9 sample_service ?r')"
    by simp
  from a b show ?thesis by (simp add: sample_answer_plain)
qed

section \<open>Argument deserialisation\<close>

lemma InvokeMethod_empty_arguments:
  assumes "methods s (method_name req) = Some f" and "arguments req = []"
  shows "InvokeMethod lib t s req = dispatch lib t s req f (VDict [])"
  using assms by (simp add: InvokeMethod_def parse_arguments_def)

lemma InvokeMethod_parsed_arguments:
  assumes "methods s (method_name req) = Some f"
    and "arguments req \<noteq> []" and "json_loads lib (arguments req) = Inr a"
  shows "InvokeMethod lib t s req = dispatch lib t s req f a"
  using assms by (simp add: InvokeMethod_def parse_arguments_def)

lemma InvokeMethod_decode_error:
  assumes "methods s (method_name req) = Some f"
    and "arguments req \<noteq> []" and "json_loads lib (arguments req) = Inl (JSONDecodeError e)"
  shows "InvokeMethod lib t s req =
           (\<lparr>success = False, error = ''Invalid JSON arguments: '' @ e, result = [],
             metadata = None\<rparr>, s)"
  using assms by (simp add: InvokeMethod_def parse_arguments_def failure_def)

lemma InvokeMethod_other_parse_exception:
  assumes "methods s (method_name req) = Some f"
    and "arguments req \<noteq> []" and "json_loads lib (arguments req) = Inl (OtherException e)"
  shows "InvokeMethod lib t s req =
           (\<lparr>success = False, error = e, result = [], metadata = None\<rparr>,
            s\<lparr>log_records := log_records s @
                 [(ERROR, ''Error executing '' @ method_name req @ '': '' @ e)]\<rparr>)"
  using assms by (simp add: InvokeMethod_def parse_arguments_def complete_def failure_def)

lemma sample_truncated_payload:
  "InvokeMethod sample_lib 7 sample_service
     \<lparr>method_name = ''answer'', request_context_id = ''ctx-1'', arguments = ''{''\<rparr> =
     (\<lparr>success = False,
       error = ''Invalid JSON arguments: Expecting property name enclosed in double quotes: line 1 column 2 (char 1)'',
       result = [], metadata = None\<rparr>, sample_service)"
proof -
  have "InvokeMethod sample_lib 7 sample_service
     \<lparr>method_name = ''answer'', request_context_id = ''ctx-1'', arguments = ''{''\<rparr> =
     (\<lparr>success = False,
       error = ''Invalid JSON arguments: '' @
         ''Expecting property name enclosed in double quotes: line 1 column 2 (char 1)'',
       result = [], metadata = None\<rparr>, sample_service)"
    by (rule InvokeMethod_decode_error [where f = answer_fn])
      (simp_all add: sample_methods sample_lib_def sample_loads_def)
  then show ?thesis by simp
qed

text \<open>
  C4. The claim asks for an \<^verbatim>\<open>Invalid JSON arguments\<close> answer on every payload that fails
  to parse. The inner handler catches \<^verbatim>\<open>json.JSONDecodeError\<close> only: for those payloads
  the code does what the claim says (lemmas \<open>InvokeMethod_decode_error\<close> and
  \<open>sample_truncated_payload\<close>), and an empty arguments field is the empty dict (lemma
  \<open>InvokeMethod_empty_arguments\<close>). On a payload that is an integer literal of 4301 digits
  the parser raises a plain \<^verbatim>\<open>ValueError\<close>, which reaches the handler of
  \<^verbatim>\<open>except Exception\<close>: the callable is not called, but the error is the bare text of the
  exception, without \<^verbatim>\<open>Invalid JSON arguments: \<close>, and the failure is logged as an error
  of the execution.
\<close>

theorem parse_exception_not_invalid_arguments:
  "InvokeMethod sample_lib 7 sample_service
     \<lparr>method_name = ''counter_increment'', request_context_id = ''ctx-1'',
      arguments = long_int_payload\<rparr> =
     (\<lparr>success = False,
       error = ''Exceeds the limit (4300 digits) for integer string conversion: value has 4301 digits; use sys.set_int_max_str_digits() to increase the limit'',
       result = [], metadata = None\<rparr>,
      sample_service\<lparr>log_records := log_records sample_service @
        [(ERROR, ''Error executing counter_increment: Exceeds the limit (4300 digits) for integer string conversion: value has 4301 digits; use sys.set_int_max_str_digits() to increase the limit'')]\<rparr>) \<and>
   take 24 (error (fst (InvokeMethod sample_lib 7 sample_service
     \<lparr>method_name = ''counter_increment'', request_context_id = ''ctx-1'',
      arguments = long_int_payload\<rparr>))) \<noteq>
     ''Invalid JSON arguments: ''"
proof -
  let ?r = "\<lparr>method_name = ''counter_increment'', request_context_id = ''ctx-1'',
             arguments = long_int_payload\<rparr>"
  let ?e = "''Exceeds the limit (4300 digits) for integer string conversion: value has 4301 digits; use sys.set_int_max_str_digits() to increase the limit''"
  have "InvokeMethod sample_lib 7 sample_service ?r =
      (\<lparr>success = False, error = ?e, result = [], metadata = None\<rparr>,
       sample_service\<lparr>log_records := log_records sample_service @
         [(ERROR, ''Error executing '' @ method_name ?r @ '': '' @ ?e)]\<rparr>)"
    by (rule InvokeMethod_other_parse_exception [where f = "counter_increment_fn sample_lib"])
      (simp_all add: sample_methods sample_loads_long_int long_int_payload_not_empty)
  then show ?thesis by simp
qed

section \<open>Errors before the call\<close>

text \<open>
  C10. When the callable is not reached because the method is not registered, or the
  parser raises on the arguments payload, or a context id is supplied and no such context
  exists, the answer has \<^verbatim>\<open>success=False\<close> and no execution metadata, and the state of
  every context, the set of contexts and the registry are as before the request. When the
  failure is one of the three checks that precede the call (\<^verbatim>\<open>MethodNotFound\<close>;
  \<^verbatim>\<open>InvalidArguments\<close>, the parser's \<^verbatim>\<open>JSONDecodeError\<close>; \<^verbatim>\<open>ContextNotFound\<close>), that
  is, unless a registered method meets another exception of the parser, the answer carries
  the message of that check and the whole service after the request, its log included, is
  the service before it.
\<close>

theorem pre_execution_errors_leave_state:
  assumes "methods s (method_name req) = None \<or>
           (\<exists>e. parse_arguments lib (arguments req) = Inl e) \<or>
           (request_context_id req \<noteq> [] \<and> contexts s (request_context_id req) = None)"
  shows "contexts (snd (InvokeMethod lib t s req)) = contexts s \<and>
         methods (snd (InvokeMethod lib t s req)) = methods s \<and>
         method_metadata (snd (InvokeMethod lib t s req)) = method_metadata s \<and>
         \<not> success (fst (InvokeMethod lib t s req)) \<and>
         metadata (fst (InvokeMethod lib t s req)) = None \<and>
         (methods s (method_name req) = None \<or>
          (\<forall>e. parse_arguments lib (arguments req) \<noteq> Inl (OtherException e)) \<longrightarrow>
            snd (InvokeMethod lib t s req) = s \<and>
            error (fst (InvokeMethod lib t s req)) \<in>
              {''Method not found: '' @ method_name req,
               ''Context not found: '' @ request_context_id req} \<union>
              {''Invalid JSON arguments: '' @ e | e.
                 parse_arguments lib (arguments req) = Inl (JSONDecodeError e)})"
proof (cases "methods s (method_name req)")
  case None
  then show ?thesis by (simp add: InvokeMethod_def failure_def)
next
  case (Some f)
  show ?thesis
  proof (cases "parse_arguments lib (arguments req)")
    case (Inl err)
    show ?thesis
    proof (cases err)
      case (JSONDecodeError e)
      with Some Inl show ?thesis by (simp add: InvokeMethod_def failure_def)
    next
      case (OtherException e)
      with Some Inl show ?thesis
        by (simp add: InvokeMethod_def complete_def failure_def)
    qed
  next
    case (Inr a)
    with Some assms show ?thesis by (simp add: InvokeMethod_def dispatch_def failure_def)
  qed
qed

theorem pre_execution_errors_leave_state_witness:
  "snd (InvokeMethod sample_lib 7 sample_service
         \<lparr>method_name = ''nope'', request_context_id = ''ctx-1'', arguments = []\<rparr>) =
     sample_service \<and>
   snd (InvokeMethod sample_lib 7 sample_service
         \<lparr>method_name = ''counter_increment'', request_context_id = ''ctx-1'',
          arguments = ''{''\<rparr>) = sample_service \<and>
   snd (InvokeMethod sample_lib 7 sample_service
         \<lparr>method_name = ''counter_increment'', request_context_id = ''ctx-9'',
          arguments = []\<rparr>) = sample_service"
proof -
  let ?r1 = "\<lparr>method_name = ''nope'', request_context_id = ''ctx-1'', arguments = []\<rparr>"
  let ?r2 = "\<lparr>method_name = ''counter_increment'', request_context_id = ''ctx-1'',
              arguments = ''{''\<rparr>"
  let ?r3 = "\<lparr>method_name = ''counter_increment'', request_context_id = ''ctx-9'',
              arguments = []\<rparr>"
  have h1: "methods sample_service (method_name ?r1) = None"
    by (simp add: sample_methods)
  have h2: "\<exists>e. parse_arguments sample_lib (arguments ?r2) = Inl e"
    by (simp add: parse_arguments_def sample_lib_def sample_loads_def)
  have n2: "\<forall>e. parse_arguments sample_lib (arguments ?r2) \<noteq> Inl (OtherException e)"
    by (simp add: parse_arguments_def sample_lib_def sample_loads_def)
  have n3: "\<forall>e. parse_arguments sample_lib (arguments ?r3) \<noteq> Inl (OtherException e)"
    by (simp add: parse_arguments_def)
  have h3: "request_context_id ?r3 \<noteq> [] \<and> contexts sample_service (request_context_id ?r3) = None"
    by (simp add: sample_contexts)
  from h1 pre_execution_errors_leave_state [of sample_service ?r1 sample_lib 7]
  have a1: "snd (InvokeMethod sample_lib 7 sample_service ?r1) = sample_service"
    by blast
  from h2 n2 pre_execution_errors_leave_state [of sample_service ?r2 sample_lib 7]
  have a2: "snd (InvokeMethod sample_lib 7 sample_service ?r2) = sample_service"
    by blast
  from h3 n3 pre_execution_errors_leave_state [of sample_service ?r3 sample_lib 7]
  have a3: "snd (InvokeMethod sample_lib 7 sample_service ?r3) = sample_service"
    by blast
  from a1 a2 a3 show ?thesis by blast
qed

section \<open>Creating a context\<close>

lemma CreateContext_decode_error:
  assumes "initial_state \<noteq> []" and "json_loads lib initial_state = Inl (JSONDecodeError e)"
  shows "CreateContext lib uuid s initial_state =
           (Inr \<lparr>success = True, error = [], created_context_id = uuid\<rparr>,
            s\<lparr>contexts := (contexts s)(uuid \<mapsto> \<lparr>context_id = uuid, state = VDict []\<rparr>),
              log_records := log_records s @
                [(WARNING, ''Invalid initial state JSON for context '' @ uuid),
                 (INFO, ''Created context: '' @ uuid)]\<rparr>)"
  using assms by (simp add: CreateContext_def ExecutionContext_init_def)

lemma CreateContext_parsed:
  assumes "initial_state \<noteq> []" and "json_loads lib initial_state = Inr v"
  shows "CreateContext lib uuid s initial_state =
           (Inr \<lparr>success = True, error = [], created_context_id = uuid\<rparr>,
            s\<lparr>contexts := (contexts s)(uuid \<mapsto> \<lparr>context_id = uuid, state = v\<rparr>),
              log_records := log_records s @ [(INFO, ''Created context: '' @ uuid)]\<rparr>)"
  using assms by (simp add: CreateContext_def ExecutionContext_init_def)

lemma CreateContext_other_exception:
  assumes "initial_state \<noteq> []" and "json_loads lib initial_state = Inl (OtherException e)"
  shows "CreateContext lib uuid s initial_state = (Inl e, s)"
  using assms by (simp add: CreateContext_def ExecutionContext_init_def)

text \<open>
  C5. The claim asks for the empty mapping as state whenever the initial state does not
  deserialise into a mapping. The constructor catches the parser's \<^verbatim>\<open>JSONDecodeError\<close>
  only (lemma \<open>CreateContext_decode_error\<close>: empty state, one warning, success). On the
  payload \<^verbatim>\<open>[1, 2]\<close>, which parses to a list, the context is created with that list as its
  state and nothing is logged at warning level, although the field is declared
  \<^verbatim>\<open>Dict[str, Any]\<close>. (On a payload for which the parser raises another exception, the
  exception leaves \<^verbatim>\<open>CreateContext\<close> and no context is created, lemma
  \<open>CreateContext_other_exception\<close>.)
\<close>

theorem create_context_keeps_non_mapping_state:
  "fst (CreateContext sample_lib ''ctx-3'' sample_service ''[1, 2]'') =
     Inr \<lparr>success = True, error = [], created_context_id = ''ctx-3''\<rparr> \<and>
   contexts (snd (CreateContext sample_lib ''ctx-3'' sample_service ''[1, 2]'')) ''ctx-3'' =
     Some \<lparr>context_id = ''ctx-3'', state = VList [VInt 1, VInt 2]\<rparr> \<and>
   state (the (contexts (snd (CreateContext sample_lib ''ctx-3'' sample_service ''[1, 2]''))
     ''ctx-3'')) \<noteq> VDict [] \<and>
   log_records (snd (CreateContext sample_lib ''ctx-3'' sample_service ''[1, 2]'')) =
     log_records sample_service @ [(INFO, ''Created context: ctx-3'')]"
proof -
  have "json_loads sample_lib ''[1, 2]'' = Inr (VList [VInt 1, VInt 2])"
    by (simp add: sample_lib_def sample_loads_def)
  then have "CreateContext sample_lib ''ctx-3'' sample_service ''[1, 2]'' =
      (Inr \<lparr>success = True, error = [], created_context_id = ''ctx-3''\<rparr>,
       sample_service\<lparr>contexts := (contexts sample_service)(''ctx-3'' \<mapsto>
           \<lparr>context_id = ''ctx-3'', state = VList [VInt 1, VInt 2]\<rparr>),
         log_records := log_records sample_service @ [(INFO, ''Created context: '' @ ''ctx-3'')]\<rparr>)"
    by (intro CreateContext_parsed) simp_all
  then show ?thesis by simp
qed

section \<open>Destroyed contexts\<close>

text \<open>
  C7, as the claim states it, fails for \<^verbatim>\<open>InvokeMethod\<close>: method resolution comes before
  session resolution, so a request that names a destroyed context and an unregistered method
  is answered with \<^verbatim>\<open>Method not found\<close>.
\<close>

theorem destroyed_context_counterexample:
  "fst (DestroyContext sample_service ''ctx-1'') = \<lparr>success = True, error = []\<rparr> \<and>
   error (fst (InvokeMethod sample_lib 7 (snd (DestroyContext sample_service ''ctx-1''))
     \<lparr>method_name = ''nope'', request_context_id = ''ctx-1'', arguments = []\<rparr>)) =
     ''Method not found: nope'' \<and>
   error (fst (InvokeMethod sample_lib 7 (snd (DestroyContext sample_service ''ctx-1''))
     \<lparr>method_name = ''nope'', request_context_id = ''ctx-1'', arguments = []\<rparr>)) \<noteq>
     ''Context not found: ctx-1''"
proof -
  have "methods (snd (DestroyContext sample_service ''ctx-1'')) ''nope'' = None"
    by (simp add: DestroyContext_def sample_methods)
  then have "error (fst (InvokeMethod sample_lib 7 (snd (DestroyContext sample_service ''ctx-1''))
      \<lparr>method_name = ''nope'', request_context_id = ''ctx-1'', arguments = []\<rparr>)) =
      ''Method not found: nope''"
    by (simp add: InvokeMethod_def failure_def)
  moreover have "fst (DestroyContext sample_service ''ctx-1'') = \<lparr>success = True, error = []\<rparr>"
    by (simp add: DestroyContext_def sample_contexts)
  ultimately show ?thesis by simp
qed

text \<open>
  C7, amended. After a successful \<^verbatim>\<open>DestroyContext(id)\<close> with a non-empty id (every
  generated id is non-empty): \<^verbatim>\<open>InspectState(id)\<close> and a second \<^verbatim>\<open>DestroyContext(id)\<close>
  answer \<^verbatim>\<open>success=False\<close> with \<^verbatim>\<open>Context not found: <id>\<close>. Every \<^verbatim>\<open>InvokeMethod\<close>
  that names the id answers \<^verbatim>\<open>success=False\<close>; its error is
  \<^verbatim>\<open>Method not found: <name>\<close> when its method is not registered,
  \<^verbatim>\<open>Invalid JSON arguments: <text>\<close> when its method is registered and the parser raises
  \<^verbatim>\<open>JSONDecodeError\<close> with that text on its arguments, and
  \<^verbatim>\<open>Context not found: <id>\<close> when its method is registered and its arguments parse.
  None of these three operations brings the id back.
\<close>

theorem destroyed_context_not_found:
  assumes "contexts s cid \<noteq> None" and "cid \<noteq> []" and "s' = snd (DestroyContext s cid)"
  shows
    "fst (DestroyContext s cid) = \<lparr>success = True, error = []\<rparr> \<and>
     InspectState lib s' cid =
       (Inr \<lparr>success = False, error = ''Context not found: '' @ cid, inspected_state = []\<rparr>, s') \<and>
     DestroyContext s' cid = (\<lparr>success = False, error = ''Context not found: '' @ cid\<rparr>, s') \<and>
     (\<forall>req t. request_context_id req = cid \<longrightarrow>
        \<not> success (fst (InvokeMethod lib t s' req)) \<and>
        contexts (snd (InvokeMethod lib t s' req)) cid = None \<and>
        (methods s (method_name req) = None \<longrightarrow>
           fst (InvokeMethod lib t s' req) =
             \<lparr>success = False, error = ''Method not found: '' @ method_name req, result = [],
              metadata = None\<rparr>) \<and>
        (\<forall>e. methods s (method_name req) \<noteq> None \<and>
           parse_arguments lib (arguments req) = Inl (JSONDecodeError e) \<longrightarrow>
           fst (InvokeMethod lib t s' req) =
             \<lparr>success = False, error = ''Invalid JSON arguments: '' @ e, result = [],
              metadata = None\<rparr>) \<and>
        (methods s (method_name req) \<noteq> None \<and>
         (\<exists>a. parse_arguments lib (arguments req) = Inr a) \<longrightarrow>
           fst (InvokeMethod lib t s' req) =
             \<lparr>success = False, error = ''Context not found: '' @ cid, result = [],
              metadata = None\<rparr>))"
proof -
  from assms(1,3) have gone: "contexts s' cid = None" and same: "methods s' = methods s"
    by (simp_all add: DestroyContext_def)
  have invoke: "\<not> success (fst (InvokeMethod lib t s' req)) \<and>
        contexts (snd (InvokeMethod lib t s' req)) cid = None \<and>
        (methods s (method_name req) = None \<longrightarrow>
           fst (InvokeMethod lib t s' req) =
             \<lparr>success = False, error = ''Method not found: '' @ method_name req, result = [],
              metadata = None\<rparr>) \<and>
        (\<forall>e. methods s (method_name req) \<noteq> None \<and>
           parse_arguments lib (arguments req) = Inl (JSONDecodeError e) \<longrightarrow>
           fst (InvokeMethod lib t s' req) =
             \<lparr>success = False, error = ''Invalid JSON arguments: '' @ e, result = [],
              metadata = None\<rparr>) \<and>
        (methods s (method_name req) \<noteq> None \<and>
         (\<exists>a. parse_arguments lib (arguments req) = Inr a) \<longrightarrow>
           fst (InvokeMethod lib t s' req) =
             \<lparr>success = False, error = ''Context not found: '' @ cid, result = [],
              metadata = None\<rparr>)"
    if rc: "request_context_id req = cid" for req t
  proof (cases "methods s (method_name req)")
    case None
    with same gone show ?thesis by (simp add: InvokeMethod_def failure_def)
  next
    case (Some f)
    show ?thesis
    proof (cases "parse_arguments lib (arguments req)")
      case (Inl err)
      show ?thesis
      proof (cases err)
        case (JSONDecodeError e)
        with Some Inl same gone show ?thesis by (simp add: InvokeMethod_def failure_def)
      next
        case (OtherException e)
        with Some Inl same gone show ?thesis
          by (simp add: InvokeMethod_def complete_def failure_def)
      qed
    next
      case (Inr a)
      with Some same gone rc assms(2) show ?thesis
        by (simp add: InvokeMethod_def dispatch_def failure_def)
    qed
  qed
  from assms(1) have "fst (DestroyContext s cid) = \<lparr>success = True, error = []\<rparr>"
    by (simp add: DestroyContext_def)
  moreover from gone have "InspectState lib s' cid =
      (Inr \<lparr>success = False, error = ''Context not found: '' @ cid, inspected_state = []\<rparr>, s')"
    by (simp add: InspectState_def)
  moreover from gone have "DestroyContext s' cid =
      (\<lparr>success = False, error = ''Context not found: '' @ cid\<rparr>, s')"
    by (simp add: DestroyContext_def)
  ultimately show ?thesis using invoke by blast
qed

theorem destroyed_context_not_found_witness:
  "InspectState sample_lib (snd (DestroyContext sample_service ''ctx-1'')) ''ctx-1'' =
     (Inr \<lparr>success = False, error = ''Context not found: ctx-1'', inspected_state = []\<rparr>,
      snd (DestroyContext sample_service ''ctx-1'')) \<and>
   DestroyContext (snd (DestroyContext sample_service ''ctx-1'')) ''ctx-1'' =
     (\<lparr>success = False, error = ''Context not found: ctx-1''\<rparr>,
      snd (DestroyContext sample_service ''ctx-1'')) \<and>
   fst (InvokeMethod sample_lib 7 (snd (DestroyContext sample_service ''ctx-1''))
     \<lparr>method_name = ''counter_increment'', request_context_id = ''ctx-1'', arguments = []\<rparr>) =
     \<lparr>success = False, error = ''Context not found: ctx-1'', result = [], metadata = None\<rparr> \<and>
   fst (InvokeMethod sample_lib 7 (snd (DestroyContext sample_service ''ctx-1''))
     \<lparr>method_name = ''counter_increment'', request_context_id = ''ctx-1'', arguments = ''{''\<rparr>) =
     \<lparr>success = False,
      error = ''Invalid JSON arguments: Expecting property name enclosed in double quotes: line 1 column 2 (char 1)'',
      result = [], metadata = None\<rparr> \<and>
   fst (InvokeMethod sample_lib 7 (snd (DestroyContext sample_service ''ctx-1''))
     \<lparr>method_name = ''nope'', request_context_id = ''ctx-1'', arguments = []\<rparr>) =
     \<lparr>success = False, error = ''Method not found: nope'', result = [], metadata = None\<rparr>"
proof -
  let ?s' = "snd (DestroyContext sample_service ''ctx-1'')"
  let ?r = "\<lparr>method_name = ''counter_increment'', request_context_id = ''ctx-1'',
             arguments = []\<rparr>"
  let ?r2 = "\<lparr>method_name = ''counter_increment'', request_context_id = ''ctx-1'',
              arguments = ''{''\<rparr>"
  let ?r3 = "\<lparr>method_name = ''nope'', request_context_id = ''ctx-1'', arguments = []\<rparr>"
  let ?e = "''Expecting property name enclosed in double quotes: line 1 column 2 (char 1)''"
  have h1: "contexts sample_service ''ctx-1'' \<noteq> None"
    by (simp add: sample_contexts)
  have h2: "''ctx-1'' \<noteq> []" by simp
  note inst = destroyed_context_not_found [OF h1 h2 refl, of sample_lib]
  note inspect = inst [THEN conjunct2, THEN conjunct1]
  note destroy = inst [THEN conjunct2, THEN conjunct2, THEN conjunct1]
  note invoke = inst [THEN conjunct2, THEN conjunct2, THEN conjunct2, rule_format]
  have "methods sample_service (method_name ?r) \<noteq> None \<and>
      (\<exists>a. parse_arguments sample_lib (arguments ?r) = Inr a)"
    by (simp add: sample_methods parse_arguments_def)
  with invoke [of ?r 7, THEN conjunct2, THEN conjunct2, THEN conjunct2, THEN conjunct2]
  have a: "fst (InvokeMethod sample_lib 7 ?s' ?r) =
      \<lparr>success = False, error = ''Context not found: '' @ ''ctx-1'', result = [],
       metadata = None\<rparr>"
    by simp
  have "methods sample_service (method_name ?r2) \<noteq> None \<and>
      parse_arguments sample_lib (arguments ?r2) = Inl (JSONDecodeError ?e)"
    by (simp add: sample_methods parse_arguments_def sample_lib_def sample_loads_def)
  with invoke [of ?r2 7, THEN conjunct2, THEN conjunct2, THEN conjunct2, THEN conjunct1,
      rule_format, of ?e]
  have b: "fst (InvokeMethod sample_lib 7 ?s' ?r2) =
      \<lparr>success = False, error = ''Invalid JSON arguments: '' @ ?e, result = [],
       metadata = None\<rparr>"
    by simp
  have "methods sample_service (method_name ?r3) = None"
    by (simp add: sample_methods)
  with invoke [of ?r3 7, THEN conjunct2, THEN conjunct2, THEN conjunct1]
  have c: "fst (InvokeMethod sample_lib 7 ?s' ?r3) =
      \<lparr>success = False, error = ''Method not found: '' @ method_name ?r3, result = [],
       metadata = None\<rparr>"
    by simp
  from inspect destroy a b c show ?thesis by simp
qed

section \<open>Listing methods\<close>

lemma list_loop_filter:
  "list_loop pfx xs acc =
     acc @ map (\<lambda>(nm, md). method_info nm md) (filter (\<lambda>(nm, md). prefix pfx nm) xs)"
  by (induction xs arbitrary: acc) auto

lemma register_functions_snoc:
  "register_functions s (regs @ [(nm, func, descr, stateful, ptypes, rtype)]) =
     register_function (register_functions s regs) nm func descr stateful ptypes rtype"
  by (induction regs arbitrary: s) auto

lemma register_function_keys:
  "map fst (method_metadata (register_function s nm func descr stateful ptypes rtype)) =
     (if nm \<in> set (map fst (method_metadata s)) then map fst (method_metadata s)
      else map fst (method_metadata s) @ [nm])"
  by (simp add: register_function_def update_keys)

lemma register_functions_keys:
  "map fst (method_metadata (register_functions service_init regs)) =
     rev (remdups (rev (map fst regs)))"
proof (induction regs rule: rev_induct)
  case Nil
  show ?case by (simp add: service_init_def)
next
  case (snoc r regs)
  obtain nm func descr stateful ptypes rtype
    where r: "r = (nm, func, descr, stateful, ptypes, rtype)"
    by (cases r) auto
  from snoc show ?case
    by (simp add: r register_functions_snoc register_function_keys)
qed

lemma register_function_methods:
  "methods (register_function s nm func descr stateful ptypes rtype) = (methods s)(nm \<mapsto> func)"
  by (simp add: register_function_def)

lemma register_functions_methods:
  "dom (methods (register_functions service_init regs)) = set (map fst regs)"
proof (induction regs rule: rev_induct)
  case Nil
  show ?case by (simp add: service_init_def)
next
  case (snoc r regs)
  obtain nm func descr stateful ptypes rtype
    where r: "r = (nm, func, descr, stateful, ptypes, rtype)"
    by (cases r) auto
  have "dom (methods (register_functions service_init (regs @ [r]))) =
      insert nm (dom (methods (register_functions service_init regs)))"
    by (simp only: r register_functions_snoc register_function_methods dom_fun_upd)
      simp
  with snoc show ?case by (simp add: r)
qed

lemma map_name_method_info:
  "map (name \<circ> (\<lambda>(nm, md). method_info nm md)) xs = map fst xs"
  by (induction xs) (auto simp add: method_info_def)

lemma ListMethods_names: "map name (fst (ListMethods s [])) = map fst (method_metadata s)"
  by (simp add: ListMethods_def list_loop_filter map_name_method_info)

lemma register_function_method_metadata:
  "map_of (method_metadata (register_function s nm func descr stateful ptypes rtype)) =
     (map_of (method_metadata s))(nm \<mapsto>
        \<lparr>description = descr, is_stateful = stateful,
         parameter_types = (case ptypes of None \<Rightarrow> [] | Some ts \<Rightarrow> ts),
         return_type = rtype\<rparr>)"
  by (simp add: register_function_def update_conv')

lemma register_functions_metadata:
  "map_of (method_metadata (register_functions service_init regs)) nm =
     map_option
       (\<lambda>(func, descr, stateful, ptypes, rtype).
          \<lparr>description = descr, is_stateful = stateful,
           parameter_types = (case ptypes of None \<Rightarrow> [] | Some ts \<Rightarrow> ts),
           return_type = rtype\<rparr>)
       (map_of (rev regs) nm)"
proof (induction regs rule: rev_induct)
  case Nil
  show ?case by (simp add: service_init_def)
next
  case (snoc r regs)
  obtain nm' func descr stateful ptypes rtype
    where r: "r = (nm', func, descr, stateful, ptypes, rtype)"
    by (cases r) auto
  from snoc show ?case
    by (simp add: r register_functions_snoc register_function_method_metadata)
qed

lemma distinct_alist_values:
  assumes "distinct (map fst al)"
  shows "map f al = map (\<lambda>k. f (k, the (map_of al k))) (map fst al)"
proof -
  have "the (map_of al (fst p)) = snd p" if "p \<in> set al" for p
  proof -
    from that have "(fst p, snd p) \<in> set al" by simp
    then have "map_of al (fst p) = Some (snd p)"
      by (simp only: map_of_eq_Some_iff [OF assms])
    then show ?thesis by simp
  qed
  then show ?thesis by (simp add: comp_def)
qed

lemma register_functions_listing:
  "fst (ListMethods (register_functions service_init regs) []) =
     map (\<lambda>nm. case the (map_of (rev regs) nm) of
            (func, descr, stateful, ptypes, rtype) \<Rightarrow>
              \<lparr>description = descr, is_stateful = stateful,
               parameter_types = (case ptypes of None \<Rightarrow> [] | Some ts \<Rightarrow> ts),
               return_type = rtype, name = nm\<rparr>)
       (rev (remdups (rev (map fst regs))))"
proof -
  let ?al = "method_metadata (register_functions service_init regs)"
  let ?info = "\<lambda>(nm, md). method_info nm md"
  have keys: "map fst ?al = rev (remdups (rev (map fst regs)))"
    by (rule register_functions_keys)
  then have "distinct (map fst ?al)" by simp
  then have "map ?info ?al = map (\<lambda>k. ?info (k, the (map_of ?al k))) (map fst ?al)"
    by (rule distinct_alist_values)
  also have "\<dots> =
      map (\<lambda>nm. case the (map_of (rev regs) nm) of
            (func, descr, stateful, ptypes, rtype) \<Rightarrow>
              \<lparr>description = descr, is_stateful = stateful,
               parameter_types = (case ptypes of None \<Rightarrow> [] | Some ts \<Rightarrow> ts),
               return_type = rtype, name = nm\<rparr>)
        (map fst ?al)"
  proof (rule map_cong [OF refl])
    fix k
    assume "k \<in> set (map fst ?al)"
    then have "k \<in> set (map fst regs)" by (simp only: keys) simp
    then have "k \<in> fst ` set (rev regs)" by simp
    then have "map_of (rev regs) k \<noteq> None"
      by (simp only: map_of_eq_None_iff not_not)
    then obtain v where v: "map_of (rev regs) k = Some v"
      by auto
    obtain func descr stateful ptypes rtype
      where "v = (func, descr, stateful, ptypes, rtype)"
      by (cases v) auto
    with v show "?info (k, the (map_of ?al k)) =
        (case the (map_of (rev regs) k) of
           (func, descr, stateful, ptypes, rtype) \<Rightarrow>
             \<lparr>description = descr, is_stateful = stateful,
              parameter_types = (case ptypes of None \<Rightarrow> [] | Some ts \<Rightarrow> ts),
              return_type = rtype, name = k\<rparr>)"
      by (simp add: register_functions_metadata method_info_def)
  qed
  finally show ?thesis
    by (simp only: keys ListMethods_def list_loop_filter fst_conv) simp
qed

text \<open>
  C8. \<^verbatim>\<open>ListMethods\<close> with an empty prefix returns one record for every entry of the
  metadata registry, in the registry's order, each carrying the entry's name and its
  description, stateful flag, parameter types and return type; with prefix \<open>pfx\<close> it
  returns the records of exactly the entries whose name starts with \<open>pfx\<close>, in the same
  order; it leaves the service (registry, contexts, log) as it was. For a registry filled
  by successive registrations, the names listed are the registered names in the order in
  which they were first registered, and the record of a name carries what the last
  registration of that name supplied (an absent list of parameter types being the empty
  list).
\<close>

theorem list_methods_by_prefix:
  "fst (ListMethods s []) =
     map (\<lambda>(nm, md). \<lparr>description = description md, is_stateful = is_stateful md,
            parameter_types = parameter_types md, return_type = return_type md, name = nm\<rparr>)
       (method_metadata s) \<and>
   fst (ListMethods s pfx) =
     map (\<lambda>(nm, md). \<lparr>description = description md, is_stateful = is_stateful md,
            parameter_types = parameter_types md, return_type = return_type md, name = nm\<rparr>)
       (filter (\<lambda>(nm, md). prefix pfx nm) (method_metadata s)) \<and>
   snd (ListMethods s pfx) = s \<and>
   map name (fst (ListMethods (register_functions service_init regs) [])) =
     rev (remdups (rev (map fst regs))) \<and>
   set (map name (fst (ListMethods (register_functions service_init regs) []))) =
     dom (methods (register_functions service_init regs)) \<and>
   fst (ListMethods (register_functions service_init regs) []) =
     map (\<lambda>nm. case the (map_of (rev regs) nm) of
            (func, descr, stateful, ptypes, rtype) \<Rightarrow>
              \<lparr>description = descr, is_stateful = stateful,
               parameter_types = (case ptypes of None \<Rightarrow> [] | Some ts \<Rightarrow> ts),
               return_type = rtype, name = nm\<rparr>)
       (rev (remdups (rev (map fst regs))))"
proof -
  have info: "(\<lambda>(nm, md). method_info nm md) =
      (\<lambda>(nm, md). \<lparr>description = description md, is_stateful = is_stateful md,
         parameter_types = parameter_types md, return_type = return_type md, name = nm\<rparr>)"
    by (simp add: method_info_def)
  have all: "fst (ListMethods s []) =
      map (\<lambda>(nm, md). \<lparr>description = description md, is_stateful = is_stateful md,
             parameter_types = parameter_types md, return_type = return_type md, name = nm\<rparr>)
        (method_metadata s)"
    by (simp add: ListMethods_def list_loop_filter info)
  have some: "fst (ListMethods s pfx) =
      map (\<lambda>(nm, md). \<lparr>description = description md, is_stateful = is_stateful md,
             parameter_types = parameter_types md, return_type = return_type md, name = nm\<rparr>)
        (filter (\<lambda>(nm, md). prefix pfx nm) (method_metadata s))"
    by (simp add: ListMethods_def list_loop_filter info)
  have pure: "snd (ListMethods s pfx) = s"
    by (simp add: ListMethods_def)
  have order: "map name (fst (ListMethods (register_functions service_init regs) [])) =
      rev (remdups (rev (map fst regs)))"
    by (simp only: ListMethods_names register_functions_keys)
  have "set (map name (fst (ListMethods (register_functions service_init regs) []))) =
      set (rev (remdups (rev (map fst regs))))"
    by (simp only: order)
  then have names: "set (map name (fst (ListMethods (register_functions service_init regs) []))) =
      dom (methods (register_functions service_init regs))"
    by (simp add: register_functions_methods)
  note records = register_functions_listing [of regs]
  from all some pure order names records show ?thesis by blast
qed

theorem list_methods_by_prefix_witness:
  "fst (ListMethods sample_service []) =
     [\<lparr>description = ''Increment a counter (stateful)'', is_stateful = True,
       parameter_types = [], return_type = ''int'', name = ''counter_increment''\<rparr>,
      \<lparr>description = ''The answer'', is_stateful = True,
       parameter_types = [''int'', ''int''], return_type = ''int'', name = ''answer''\<rparr>,
      \<lparr>description = ''Always raises'', is_stateful = False,
       parameter_types = [], return_type = ''Any'', name = ''boom''\<rparr>] \<and>
   fst (ListMethods sample_service ''a'') =
     [\<lparr>description = ''The answer'', is_stateful = True,
       parameter_types = [''int'', ''int''], return_type = ''int'', name = ''answer''\<rparr>] \<and>
   snd (ListMethods sample_service ''a'') = sample_service"
proof -
  note inst = list_methods_by_prefix [of sample_service "''a''" "[]"]
  from inst [THEN conjunct1] have a: "fst (ListMethods sample_service []) =
     [\<lparr>description = ''Increment a counter (stateful)'', is_stateful = True,
       parameter_types = [], return_type = ''int'', name = ''counter_increment''\<rparr>,
      \<lparr>description = ''The answer'', is_stateful = True,
       parameter_types = [''int'', ''int''], return_type = ''int'', name = ''answer''\<rparr>,
      \<lparr>description = ''Always raises'', is_stateful = False,
       parameter_types = [], return_type = ''Any'', name = ''boom''\<rparr>]"
    by (simp add: sample_metadata)
  from inst [THEN conjunct2, THEN conjunct1] have b: "fst (ListMethods sample_service ''a'') =
     [\<lparr>description = ''The answer'', is_stateful = True,
       parameter_types = [''int'', ''int''], return_type = ''int'', name = ''answer''\<rparr>]"
    by (simp add: sample_metadata)
  from inst [THEN conjunct2, THEN conjunct2, THEN conjunct1]
  have c: "snd (ListMethods sample_service ''a'') = sample_service" .
  from a b c show ?thesis by blast
qed

section \<open>The counter\<close>

lemma counter_increment_counts:
  assumes "fst (counter_get lib ctx) = Inr (VInt c)"
  shows "fst (counter_increment lib ctx) = Inr (VInt (c + 1)) \<and>
         fst (counter_get lib (snd (counter_increment lib ctx))) = Inr (VInt (c + 1))"
proof (cases "state ctx")
  case (VDict d)
  with assms have "(case map_of d ''counter'' of Some v \<Rightarrow> v | None \<Rightarrow> VInt 0) = VInt c"
    by (simp add: counter_get_def)
  with VDict show ?thesis
    by (simp add: counter_increment_def counter_get_def update_state_def update_conv')
qed (use assms in \<open>simp_all add: counter_get_def\<close>)

lemma InvokeMethod_counter_increment:
  assumes "methods s ''counter_increment'' = Some (counter_increment_fn lib)"
    and "map_of (method_metadata s) ''counter_increment'' = Some md"
    and "is_stateful md"
    and "cid \<noteq> []"
    and "contexts s cid = Some ctx"
    and "fst (counter_get lib ctx) = Inr (VInt c)"
    and "json_dumps lib (VInt (c + 1)) = Inr js"
    and "method_name req = ''counter_increment''"
    and "request_context_id req = cid"
    and "parse_arguments lib (arguments req) = Inr (VDict [])"
  shows "fst (InvokeMethod lib t s req) =
           \<lparr>success = True, error = [], result = js,
            metadata = Some \<lparr>execution_time_us = t, memory_bytes = 0, runtime = ''python''\<rparr>\<rparr> \<and>
         contexts (snd (InvokeMethod lib t s req)) cid = Some (snd (counter_increment lib ctx))"
proof -
  have m: "methods s (method_name req) = Some (counter_increment_fn lib)"
    and p: "parse_arguments lib (arguments req) = Inr (VDict [])"
    and c: "request_context_id req \<noteq> []" "contexts s (request_context_id req) = Some ctx"
    and md: "map_of (method_metadata s) (method_name req) = Some md"
    using assms by simp_all
  have call: "call_with_context (counter_increment_fn lib) ctx (VDict []) =
      counter_increment lib ctx"
    by (simp add: counter_increment_fn_def)
  from counter_increment_counts [OF assms(6)]
  have out: "fst (counter_increment lib ctx) = Inr (VInt (c + 1))" by simp
  have "InvokeMethod lib t s req =
      complete lib t req
        (fst (counter_increment lib ctx),
         s\<lparr>contexts := (contexts s)(request_context_id req \<mapsto>
              snd (counter_increment lib ctx))\<rparr>)"
    by (simp add: InvokeMethod_registered [OF m p] dispatch_stateful [OF c md assms(3)] call)
  with out assms(7,9) show ?thesis
    by (simp add: complete_def)
qed

lemma invoke_times_Cons:
  "fst (invoke_times lib s req (t # ts)) =
     fst (InvokeMethod lib t s req) # fst (invoke_times lib (snd (InvokeMethod lib t s req)) req ts)"
  by (simp split: prod.splits)

lemma invoke_times_Cons_snd:
  "snd (invoke_times lib s req (t # ts)) =
     snd (invoke_times lib (snd (InvokeMethod lib t s req)) req ts)"
  by (simp split: prod.splits)

lemma invoke_times_methods: "methods (snd (invoke_times lib s req ts)) = methods s"
proof (induction ts arbitrary: s)
  case Nil
  show ?case by simp
next
  case (Cons t ts)
  show ?case by (simp only: invoke_times_Cons_snd Cons.IH InvokeMethod_methods)
qed

lemma invoke_times_method_metadata:
  "method_metadata (snd (invoke_times lib s req ts)) = method_metadata s"
proof (induction ts arbitrary: s)
  case Nil
  show ?case by simp
next
  case (Cons t ts)
  show ?case by (simp only: invoke_times_Cons_snd Cons.IH InvokeMethod_method_metadata)
qed

lemma invoke_times_other_contexts:
  assumes "cid \<noteq> request_context_id req"
  shows "contexts (snd (invoke_times lib s req ts)) cid = contexts s cid"
proof (induction ts arbitrary: s)
  case Nil
  show ?case by simp
next
  case (Cons t ts)
  show ?case
    by (simp only: invoke_times_Cons_snd Cons.IH InvokeMethod_other_contexts [OF assms])
qed

lemma counter_sequence_results:
  assumes "methods s ''counter_increment'' = Some (counter_increment_fn lib)"
    and "map_of (method_metadata s) ''counter_increment'' = Some md"
    and "is_stateful md"
    and "cid \<noteq> []"
    and "contexts s cid = Some ctx"
    and "fst (counter_get lib ctx) = Inr (VInt c)"
    and "\<forall>k\<in>{c + 1..c + int (length ts)}. json_dumps lib (VInt k) = Inr (enc k)"
    and "method_name req = ''counter_increment''"
    and "request_context_id req = cid"
    and "parse_arguments lib (arguments req) = Inr (VDict [])"
  shows "fst (invoke_times lib s req ts) =
           map (\<lambda>(t, k). \<lparr>success = True, error = [], result = enc k,
                  metadata = Some \<lparr>execution_time_us = t, memory_bytes = 0,
                    runtime = ''python''\<rparr>\<rparr>)
             (zip ts [c + 1..c + int (length ts)])"
  using assms(1,2,5,6,7)
proof (induction ts arbitrary: s ctx c)
  case Nil
  show ?case by simp
next
  case (Cons t ts)
  let ?s' = "snd (InvokeMethod lib t s req)"
  let ?ctx' = "snd (counter_increment lib ctx)"
  from Cons.prems(5) have d: "json_dumps lib (VInt (c + 1)) = Inr (enc (c + 1))" by simp
  note step = InvokeMethod_counter_increment
    [OF Cons.prems(1,2) assms(3,4) Cons.prems(3,4) d assms(8,9,10), of t]
  have "fst (invoke_times lib ?s' req ts) =
      map (\<lambda>(t, k). \<lparr>success = True, error = [], result = enc k,
             metadata = Some \<lparr>execution_time_us = t, memory_bytes = 0,
               runtime = ''python''\<rparr>\<rparr>)
        (zip ts [c + 1 + 1..c + 1 + int (length ts)])"
  proof (rule Cons.IH)
    show "methods ?s' ''counter_increment'' = Some (counter_increment_fn lib)"
      using Cons.prems(1) by (simp add: InvokeMethod_methods)
    show "map_of (method_metadata ?s') ''counter_increment'' = Some md"
      using Cons.prems(2) by (simp add: InvokeMethod_method_metadata)
    show "contexts ?s' cid = Some ?ctx'"
      using step by simp
    show "fst (counter_get lib ?ctx') = Inr (VInt (c + 1))"
      using counter_increment_counts [OF Cons.prems(4)] by simp
    show "\<forall>k\<in>{c + 1 + 1..c + 1 + int (length ts)}. json_dumps lib (VInt k) = Inr (enc k)"
      using Cons.prems(5) by simp
  qed
  moreover have "[c + 1..c + int (length (t # ts))] =
      (c + 1) # [c + 1 + 1..c + 1 + int (length ts)]"
  proof -
    have "c + int (length (t # ts)) = c + 1 + int (length ts)" by simp
    moreover have "[c + 1..c + 1 + int (length ts)] =
        (c + 1) # [c + 1 + 1..c + 1 + int (length ts)]"
      by (rule upto_rec1) simp
    ultimately show ?thesis by (simp only:)
  qed
  ultimately show ?case
    using step by (simp only: invoke_times_Cons zip_Cons_Cons list.map prod.case)
qed

lemma sample_dumps_int:
  assumes "0 \<le> a" and "b < 100"
  shows "\<forall>k\<in>{a..b}. json_dumps sample_lib (VInt k) = Inr (str_int k)"
  using assms by (auto intro!: sample_dumps_small)

lemma sample_counter_registered:
  "methods sample_service ''counter_increment'' = Some (counter_increment_fn sample_lib)"
  "map_of (method_metadata sample_service) ''counter_increment'' =
     Some \<lparr>description = ''Increment a counter (stateful)'', is_stateful = True,
           parameter_types = [], return_type = ''int''\<rparr>"
  by (simp_all add: sample_methods sample_metadata)

text \<open>
  C6, as the claim states it, fails for a session that was seeded with a counter: the
  callable continues from the stored value. The context \<^verbatim>\<open>ctx-2\<close> was created with the
  initial state \<^verbatim>\<open>{"counter": 5}\<close>; two invocations return 6 and 7, not 1 and 2.
\<close>

theorem seeded_counter_counterexample:
  "map result (fst (invoke_times sample_lib sample_service
       \<lparr>method_name = ''counter_increment'', request_context_id = ''ctx-2'', arguments = []\<rparr>
       [7, 8])) = [''6'', ''7''] \<and>
   map result (fst (invoke_times sample_lib sample_service
       \<lparr>method_name = ''counter_increment'', request_context_id = ''ctx-2'', arguments = []\<rparr>
       [7, 8])) \<noteq> [''1'', ''2'']"
proof -
  let ?c2 = "\<lparr>context_id = ''ctx-2'', state = VDict [(''counter'', VInt 5)]\<rparr>"
  have c: "contexts sample_service ''ctx-2'' = Some ?c2"
    by (simp add: sample_contexts)
  have g: "fst (counter_get sample_lib ?c2) = Inr (VInt 5)"
    by (simp add: counter_get_def)
  have u: "[5 + 1..5 + int (length [7, 8 :: int])] = [6, 7]"
    by simp
  have "fst (invoke_times sample_lib sample_service
       \<lparr>method_name = ''counter_increment'', request_context_id = ''ctx-2'', arguments = []\<rparr>
       [7, 8]) =
     map (\<lambda>(t, k). \<lparr>success = True, error = [], result = str_int k,
            metadata = Some \<lparr>execution_time_us = t, memory_bytes = 0, runtime = ''python''\<rparr>\<rparr>)
       (zip [7, 8] [5 + 1..5 + int (length [7, 8 :: int])])"
    by (rule counter_sequence_results [OF sample_counter_registered _ _ c g sample_dumps_int])
      (simp_all add: parse_arguments_def)
  then have "map result (fst (invoke_times sample_lib sample_service
       \<lparr>method_name = ''counter_increment'', request_context_id = ''ctx-2'', arguments = []\<rparr>
       [7, 8])) = [str_int 6, str_int 7]"
    by (simp only: u) simp
  moreover have "str_int 6 = ''6''" and "str_int 7 = ''7''"
    by (simp_all add: str_int_def str_nat.simps)
  ultimately have r: "map result (fst (invoke_times sample_lib sample_service
       \<lparr>method_name = ''counter_increment'', request_context_id = ''ctx-2'', arguments = []\<rparr>
       [7, 8])) = [''6'', ''7'']"
    by (simp only:)
  have "[''6'', ''7''] \<noteq> [''1'', ''2'']" by simp
  with r show ?thesis by (simp only:) simp
qed

text \<open>
  C6, amended. Let a session with a non-empty id hold the integer counter \<open>c\<close>, as
  \<^verbatim>\<open>counter_get\<close> reads it: its state is a mapping whose \<^verbatim>\<open>counter\<close> entry is \<open>c\<close>, or
  has no such entry and \<open>c = 0\<close> (so \<open>c = 0\<close> for every session created without initial
  state). Let \<open>N\<close> be such that the serialiser encodes each of the integers
  \<open>c + 1, \<dots>, c + N\<close> (\<open>enc k\<close> is the encoding of \<open>k\<close>; the interpreter refuses integers
  of more than 4300 digits). Then \<open>N\<close> sequential invocations of the stateful
  \<^verbatim>\<open>counter_increment\<close> with that session's id and empty arguments all succeed and return
  the encodings of \<open>c + 1, \<dots>, c + N\<close> in this order, that is of \<open>1, \<dots>, N\<close> when \<open>c = 0\<close>;
  they leave every other session as it was, and every request that names another session
  is answered afterwards exactly as it would have been before.
\<close>

theorem counter_sequence:
  assumes "methods s ''counter_increment'' = Some (counter_increment_fn lib)"
    and "map_of (method_metadata s) ''counter_increment'' = Some md"
    and "is_stateful md"
    and "cid \<noteq> []"
    and "contexts s cid = Some ctx"
    and "fst (counter_get lib ctx) = Inr (VInt c)"
    and "\<forall>k\<in>{c + 1..c + int (length ts)}. json_dumps lib (VInt k) = Inr (enc k)"
    and "method_name req = ''counter_increment''"
    and "request_context_id req = cid"
    and "parse_arguments lib (arguments req) = Inr (VDict [])"
  shows
    "fst (invoke_times lib s req ts) =
       map (\<lambda>(t, k). \<lparr>success = True, error = [], result = enc k,
              metadata = Some \<lparr>execution_time_us = t, memory_bytes = 0,
                runtime = ''python''\<rparr>\<rparr>)
         (zip ts [c + 1..c + int (length ts)]) \<and>
     map result (fst (invoke_times lib s req ts)) = map enc [c + 1..c + int (length ts)] \<and>
     (\<forall>cid'. cid' \<noteq> cid \<longrightarrow>
        contexts (snd (invoke_times lib s req ts)) cid' = contexts s cid') \<and>
     (\<forall>req' t'. request_context_id req' \<noteq> cid \<longrightarrow>
        fst (InvokeMethod lib t' (snd (invoke_times lib s req ts)) req') =
        fst (InvokeMethod lib t' s req')) \<and>
     fst (counter_get lib (the (contexts (snd (CreateContext lib uuid s0 [])) uuid))) =
       Inr (VInt 0)"
proof -
  let ?ok = "\<lambda>(t, k). \<lparr>success = True, error = [], result = enc k,
      metadata = Some \<lparr>execution_time_us = t, memory_bytes = 0, runtime = ''python''\<rparr>\<rparr>"
  note rc = assms(9)
  have answers: "fst (invoke_times lib s req ts) = map ?ok (zip ts [c + 1..c + int (length ts)])"
    by (rule counter_sequence_results [OF assms])
  have len: "length [c + 1..c + int (length ts)] = length ts"
    by simp
  have "map result (map ?ok zs) = map enc (map snd zs)" for zs
    by (induction zs) auto
  then have "map result (map ?ok (zip ts [c + 1..c + int (length ts)])) =
      map enc (map snd (zip ts [c + 1..c + int (length ts)]))" .
  also have "\<dots> = map enc [c + 1..c + int (length ts)]"
    by (simp only: map_snd_zip [OF len [symmetric]])
  finally have results:
    "map result (fst (invoke_times lib s req ts)) = map enc [c + 1..c + int (length ts)]"
    by (simp only: answers)
  have others: "contexts (snd (invoke_times lib s req ts)) cid' = contexts s cid'"
    if "cid' \<noteq> cid" for cid'
    using that rc by (simp add: invoke_times_other_contexts)
  have later: "fst (InvokeMethod lib t' (snd (invoke_times lib s req ts)) req') =
      fst (InvokeMethod lib t' s req')"
    if "request_context_id req' \<noteq> cid" for req' t'
    using that
    by (intro InvokeMethod_response_cong)
      (simp_all add: invoke_times_methods invoke_times_method_metadata others)
  have fresh: "fst (counter_get lib (the (contexts (snd (CreateContext lib uuid s0 [])) uuid))) =
      Inr (VInt 0)"
    by (simp add: CreateContext_def ExecutionContext_init_def counter_get_def)
  from answers results others later fresh show ?thesis by blast
qed

theorem counter_sequence_witness:
  "map result (fst (invoke_times sample_lib sample_service
       \<lparr>method_name = ''counter_increment'', request_context_id = ''ctx-1'', arguments = []\<rparr>
       [7, 8, 9])) = [''1'', ''2'', ''3''] \<and>
   contexts (snd (invoke_times sample_lib sample_service
       \<lparr>method_name = ''counter_increment'', request_context_id = ''ctx-1'', arguments = []\<rparr>
       [7, 8, 9])) ''ctx-2'' =
     Some \<lparr>context_id = ''ctx-2'', state = VDict [(''counter'', VInt 5)]\<rparr>"
proof -
  let ?r = "\<lparr>method_name = ''counter_increment'', request_context_id = ''ctx-1'',
             arguments = []\<rparr>"
  let ?c1 = "\<lparr>context_id = ''ctx-1'', state = VDict []\<rparr>"
  have n: "''ctx-1'' \<noteq> []" by simp
  have c: "contexts sample_service ''ctx-1'' = Some ?c1"
    by (simp add: sample_contexts)
  have g: "fst (counter_get sample_lib ?c1) = Inr (VInt 0)"
    by (simp add: counter_get_def)
  have st: "is_stateful \<lparr>description = ''Increment a counter (stateful)'', is_stateful = True,
      parameter_types = [], return_type = ''int''\<rparr>"
    by simp
  have q: "method_name ?r = ''counter_increment''" "request_context_id ?r = ''ctx-1''"
    "parse_arguments sample_lib (arguments ?r) = Inr (VDict [])"
    by (simp_all add: parse_arguments_def)
  have d: "\<forall>k\<in>{0 + 1..0 + int (length [7, 8, 9 :: int])}.
      json_dumps sample_lib (VInt k) = Inr (str_int k)"
    by (rule sample_dumps_int) simp_all
  note inst = counter_sequence [OF sample_counter_registered st n c g d q]
  have u: "[0 + 1..0 + int (length [7, 8, 9 :: int])] = [1, 2, 3]"
    by (simp add: upto.simps)
  from inst [THEN conjunct2, THEN conjunct1]
  have "map result (fst (invoke_times sample_lib sample_service ?r [7, 8, 9])) =
      map str_int [0 + 1..0 + int (length [7, 8, 9 :: int])]" .
  moreover have "str_int 1 = ''1''" and "str_int 2 = ''2''" and "str_int 3 = ''3''"
    by (simp_all add: str_int_def str_nat.simps)
  ultimately have a: "map result (fst (invoke_times sample_lib sample_service ?r [7, 8, 9])) =
      [''1'', ''2'', ''3'']"
    by (simp only: u list.map)
  from inst [THEN conjunct2, THEN conjunct2, THEN conjunct1, rule_format, of "''ctx-2''"]
  have "contexts (snd (invoke_times sample_lib sample_service ?r [7, 8, 9])) ''ctx-2'' =
      contexts sample_service ''ctx-2''"
    by simp
  then have b: "contexts (snd (invoke_times sample_lib sample_service ?r [7, 8, 9])) ''ctx-2'' =
      Some \<lparr>context_id = ''ctx-2'', state = VDict [(''counter'', VInt 5)]\<rparr>"
    by (simp only: sample_contexts) simp
  from a b show ?thesis by (rule conjI)
qed

section \<open>Serialising results\<close>

lemma complete_unserialisable:
  assumes "json_dumps lib v = Inl e"
  shows "complete lib t req (Inr v, s') =
           (\<lparr>success = False, error = e, result = [], metadata = None\<rparr>,
            s'\<lparr>log_records := log_records s' @
                 [(ERROR, ''Error executing '' @ method_name req @ '': '' @ e)]\<rparr>)"
  using assms by (simp add: complete_def failure_def)

lemma limit_service_parts:
  "contexts limit_service ''ctx-9'' =
     Some \<lparr>context_id = ''ctx-9'',
           state = VDict [(''counter'', VInt (10 ^ int_max_str_digits - 1))]\<rparr>"
  "methods limit_service = methods sample_service"
  "method_metadata limit_service = method_metadata sample_service"
  by (simp_all add: limit_service_def
      CreateContext_parsed [OF seeded_limit_payload_not_empty sample_loads_seeded_limit])

text \<open>
  C9. The claim asks that every value built from numbers, strings, booleans, null,
  sequences and string-keyed mappings is serialised and read back unchanged, and that a
  value the serialiser cannot encode falls back to its string representation instead of
  failing. The dispatcher serialises with \<^verbatim>\<open>json.dumps(result, default=str)\<close> inside its
  \<^verbatim>\<open>try\<close>, and \<^verbatim>\<open>default\<close> is consulted only for objects of unsupported types: when
  the serialiser raises on a value of a supported type there is no fallback, and the
  request is answered with \<^verbatim>\<open>success=False\<close>. A session created with the largest counter
  of 4300 digits shows it: \<^verbatim>\<open>counter_increment\<close> returns the integer \<open>10 ^ 4300\<close>, the
  serialiser raises \<^verbatim>\<open>ValueError\<close> on it, and the answer carries that text and no
  result, so the number is neither encoded nor replaced by its string form.
\<close>

theorem unserialisable_result_fails:
  "fst (CreateContext sample_lib ''ctx-9'' sample_service seeded_limit_payload) =
     Inr \<lparr>success = True, error = [], created_context_id = ''ctx-9''\<rparr> \<and>
   fst (call_with_context (counter_increment_fn sample_lib)
          (the (contexts limit_service ''ctx-9'')) (VDict [])) =
     Inr (VInt (10 ^ int_max_str_digits)) \<and>
   json_dumps sample_lib (VInt (10 ^ int_max_str_digits)) =
     Inl ''Exceeds the limit (4300 digits) for integer string conversion; use sys.set_int_max_str_digits() to increase the limit'' \<and>
   fst (InvokeMethod sample_lib 7 limit_service
         \<lparr>method_name = ''counter_increment'', request_context_id = ''ctx-9'',
          arguments = []\<rparr>) =
     \<lparr>success = False,
      error = ''Exceeds the limit (4300 digits) for integer string conversion; use sys.set_int_max_str_digits() to increase the limit'',
      result = [], metadata = None\<rparr>"
proof -
  let ?r = "\<lparr>method_name = ''counter_increment'', request_context_id = ''ctx-9'',
             arguments = []\<rparr>"
  let ?ctx = "\<lparr>context_id = ''ctx-9'',
               state = VDict [(''counter'', VInt (10 ^ int_max_str_digits - 1))]\<rparr>"
  let ?md = "\<lparr>description = ''Increment a counter (stateful)'', is_stateful = True,
              parameter_types = [], return_type = ''int''\<rparr>"
  have created: "fst (CreateContext sample_lib ''ctx-9'' sample_service seeded_limit_payload) =
      Inr \<lparr>success = True, error = [], created_context_id = ''ctx-9''\<rparr>"
    by (simp add:
        CreateContext_parsed [OF seeded_limit_payload_not_empty sample_loads_seeded_limit])
  have call: "call_with_context (counter_increment_fn sample_lib) ?ctx (VDict []) =
      (Inr (VInt (10 ^ int_max_str_digits)),
       \<lparr>context_id = ''ctx-9'',
        state = VDict [(''counter'', VInt (10 ^ int_max_str_digits))]\<rparr>)"
    by (simp add: counter_increment_fn_def counter_increment_def update_state_def)
  have m: "methods limit_service (method_name ?r) = Some (counter_increment_fn sample_lib)"
    by (simp add: limit_service_parts sample_methods)
  have p: "parse_arguments sample_lib (arguments ?r) = Inr (VDict [])"
    by (simp add: parse_arguments_def)
  have c: "request_context_id ?r \<noteq> []"
    "contexts limit_service (request_context_id ?r) = Some ?ctx"
    by (simp_all add: limit_service_parts)
  have md: "map_of (method_metadata limit_service) (method_name ?r) = Some ?md"
    by (simp add: limit_service_parts sample_metadata)
  have st: "is_stateful ?md" by simp
  have "InvokeMethod sample_lib 7 limit_service ?r =
      complete sample_lib 7 ?r
        (fst (call_with_context (counter_increment_fn sample_lib) ?ctx (VDict [])),
         limit_service\<lparr>contexts := (contexts limit_service)(request_context_id ?r \<mapsto>
           snd (call_with_context (counter_increment_fn sample_lib) ?ctx (VDict [])))\<rparr>)"
    by (simp only: InvokeMethod_registered [OF m p] dispatch_stateful [OF c md st])
  then have answer: "fst (InvokeMethod sample_lib 7 limit_service ?r) =
      \<lparr>success = False,
       error = ''Exceeds the limit (4300 digits) for integer string conversion; use sys.set_int_max_str_digits() to increase the limit'',
       result = [], metadata = None\<rparr>"
    by (simp only: call fst_conv snd_conv complete_unserialisable [OF sample_dumps_at_limit])
  from call have returned: "fst (call_with_context (counter_increment_fn sample_lib)
      (the (contexts limit_service ''ctx-9'')) (VDict [])) = Inr (VInt (10 ^ int_max_str_digits))"
    by (simp only: limit_service_parts option.sel fst_conv)
  from created returned sample_dumps_at_limit answer show ?thesis by blast
qed

end
